theory Spec2Isabelle
  imports Main "HOL-Library.Sublist" "HOL-Library.Product_Lexorder"
begin

section \<open>Text: Python strings of the matcher\<close>

text \<open>
  The program is \<^verbatim>\<open>vector_skill_matrix.py\<close> (\<^verbatim>\<open>main.py\<close> only serves a
  static page). Its strings are modelled as
  \<^typ>\<open>string\<close>, each \<^typ>\<open>char\<close> read as a code point below 256.
  \<^verbatim>\<open>str.strip()\<close> removes the characters for which \<^verbatim>\<open>str.isspace\<close>
  holds; below 256 these are 9-13, 28-32, 133 and 160. \<^verbatim>\<open>str.lower()\<close> moves
  A-Z and the Latin-1 capitals 192-214, 216-222 up by 32 and leaves the rest.
  \<^verbatim>\<open>str.upper()\<close> is only ever compared with ASCII words (YES, EXPERT, ...); the
  three code points whose upper-case form leaves the range (181, 223, 255) are kept as
  they are, which decides those comparisons the same way.
\<close>

definition is_space :: "char \<Rightarrow> bool" where
  "is_space c = ((of_char c :: nat) \<in> {9, 10, 11, 12, 13, 28, 29, 30, 31, 32, 133, 160})"

definition lower_char :: "char \<Rightarrow> char" where
  "lower_char c =
     (let n = (of_char c :: nat)
      in if (65 \<le> n \<and> n \<le> 90) \<or> (192 \<le> n \<and> n \<le> 214) \<or> (216 \<le> n \<and> n \<le> 222)
         then char_of (n + 32) else c)"

definition upper_char :: "char \<Rightarrow> char" where
  "upper_char c =
     (let n = (of_char c :: nat)
      in if (97 \<le> n \<and> n \<le> 122) \<or> (224 \<le> n \<and> n \<le> 246) \<or> (248 \<le> n \<and> n \<le> 254)
         then char_of (n - 32) else c)"

definition strip :: "string \<Rightarrow> string" where
  "strip s = rev (dropWhile is_space (rev (dropWhile is_space s)))"

definition lower :: "string \<Rightarrow> string" where
  "lower s = map lower_char s"

definition upper :: "string \<Rightarrow> string" where
  "upper s = map upper_char s"

text \<open>
  \<^verbatim>\<open>s.replace(old, new)\<close> for a non-empty \<^verbatim>\<open>old\<close> (every call of the program
  passes a literal): occurrences are replaced from the left and do not overlap. The
  counter is the number of characters of the current occurrence still to be skipped.
\<close>

fun replace_from :: "string \<Rightarrow> string \<Rightarrow> nat \<Rightarrow> string \<Rightarrow> string" where
  "replace_from old new k [] = []"
| "replace_from old new (Suc k) (c # cs) = replace_from old new k cs"
| "replace_from old new 0 (c # cs) =
     (if prefix old (c # cs) then new @ replace_from old new (length old - 1) cs
      else c # replace_from old new 0 cs)"

definition str_replace :: "string \<Rightarrow> string \<Rightarrow> string \<Rightarrow> string" where
  "str_replace old new s = replace_from old new 0 s"

text \<open>\<^verbatim>\<open>s.split(d)\<close> for a one-character separator: never an empty list.\<close>

fun split_on :: "char \<Rightarrow> string \<Rightarrow> string list" where
  "split_on d [] = [[]]"
| "split_on d (c # cs) =
     (if c = d then [] # split_on d cs
      else (case split_on d cs of
              [] \<Rightarrow> [[c]]
            | w # ws \<Rightarrow> (c # w) # ws))"

text \<open>\<^verbatim>\<open>def normalize(text)\<close>, lines 9-12 (named \<open>normalize_text\<close> here).\<close>

definition normalize_text :: "string \<Rightarrow> string" where
  "normalize_text text =
     (if text = [] then []
      else str_replace ''_'' [] (str_replace ''-'' [] (lower (strip text))))"

section \<open>Profiles and matches\<close>

text \<open>
  The dictionaries of \<^verbatim>\<open>structured_data\<close>, built at lines 102-162, as records.
  Both a skill and a course have a key \<^verbatim>\<open>name\<close>; the fields are called
  \<open>skill_name\<close> and \<open>course_name\<close>. Flags and the proficiency are the strings
  of the datasets, the months an integer.
\<close>

record skill =
  skill_name :: string
  proficiency :: string
  isPrimary :: string
  isCurrent :: string
  experienceProjectMths :: int

record course =
  course_name :: string
  completedOn :: string

record cert =
  cert_name :: string
  certifiedOn :: string

record profile =
  empID :: string
  emp_name :: string
  jobLevel :: string
  company :: string
  mailID :: string
  skills_struct :: "skill list"
  courses_struct :: "course list"
  certs_struct :: "cert list"
  summary :: string

text \<open>The values the program stores under \<^verbatim>\<open>"match_type"\<close>.\<close>

datatype tier = EXACT | AND | OR | PARTIAL | COURSE

text \<open>
  A match is a dictionary with the key \<^verbatim>\<open>"profile"\<close>, one of \<^verbatim>\<open>"skill"\<close>
  and \<^verbatim>\<open>"course"\<close>, and, once the main script has tagged it,
  \<^verbatim>\<open>"match_type"\<close>. A missing key is \<open>None\<close>.
\<close>

record match =
  m_profile :: profile
  m_skill :: "skill option"
  m_course :: "course option"
  match_type :: "tier option"

datatype py_error = KeyError string | IndexError

section \<open>Matching strategies (lines 14-58)\<close>

text \<open>
  Each strategy scans the profiles in order; the inner loop stops at the first skill
  (course) that passes the test (\<^verbatim>\<open>break\<close>), which is \<^const>\<open>find\<close>.
  \<^verbatim>\<open>part in name\<close> on strings is \<^const>\<open>sublist\<close>.
\<close>

definition skill_match :: "profile \<Rightarrow> skill \<Rightarrow> match" where
  "skill_match p s = \<lparr>m_profile = p, m_skill = Some s, m_course = None, match_type = None\<rparr>"

definition course_match :: "profile \<Rightarrow> course \<Rightarrow> match" where
  "course_match p c = \<lparr>m_profile = p, m_skill = None, m_course = Some c, match_type = None\<rparr>"

definition find_skill_matches :: "string \<Rightarrow> profile list \<Rightarrow> bool \<Rightarrow> match list" where
  "find_skill_matches skill_phrase structured_data partial =
     (let skill_phrase_norm = normalize_text skill_phrase;
          skill_parts = map normalize_text (split_on CHR ''|'' skill_phrase)
      in List.map_filter
           (\<lambda>p. map_option (skill_match p)
              (find (\<lambda>s. skill_phrase_norm = normalize_text (skill_name s) \<or>
                          (partial \<and> list_ex (\<lambda>part. sublist part (normalize_text (skill_name s))) skill_parts))
                 (skills_struct p)))
           structured_data)"

definition find_and_matches :: "string list \<Rightarrow> profile list \<Rightarrow> match list" where
  "find_and_matches skill_parts structured_data =
     List.map_filter
       (\<lambda>p. map_option (skill_match p)
          (find (\<lambda>s. list_all (\<lambda>part. sublist part (normalize_text (skill_name s))) skill_parts)
             (skills_struct p)))
       structured_data"

definition find_or_matches :: "string list \<Rightarrow> profile list \<Rightarrow> match list" where
  "find_or_matches skill_parts structured_data =
     List.map_filter
       (\<lambda>p. map_option (skill_match p)
          (find (\<lambda>s. list_ex (\<lambda>part. sublist part (normalize_text (skill_name s))) skill_parts)
             (skills_struct p)))
       structured_data"

definition find_course_matches :: "string \<Rightarrow> profile list \<Rightarrow> match list" where
  "find_course_matches skill_phrase structured_data =
     (let skill_phrase_norm = normalize_text skill_phrase
      in List.map_filter
           (\<lambda>p. map_option (course_match p)
              (find (\<lambda>c. sublist skill_phrase_norm (normalize_text (course_name c)) \<or>
                          list_ex (\<lambda>part. sublist part (normalize_text (course_name c)))
                            (split_on CHR ''|'' skill_phrase_norm))
                 (courses_struct p)))
           structured_data)"

section \<open>Sort key and sorting (lines 60-68)\<close>

text \<open>
  \<^verbatim>\<open>proficiency_order.get(k, 0)\<close> for a string \<open>k\<close> (the dictionary's key
  \<^verbatim>\<open>None\<close> is never looked up: the key is always \<^verbatim>\<open>(... or "").upper()\<close>).
\<close>

definition proficiency_order :: "string \<Rightarrow> int" where
  "proficiency_order k =
     (if k = ''EXPERT'' then 4 else if k = ''PROFICIENT'' then 3
      else if k = ''COMPETENT'' then 2 else if k = ''BEGINNER'' then 1 else 0)"

text \<open>\<^verbatim>\<open>s = match["skill"]\<close> raises \<^verbatim>\<open>KeyError\<close> when the match has no such key.\<close>

definition skill_sort_key :: "match \<Rightarrow> py_error + (int \<times> int \<times> int \<times> int)" where
  "skill_sort_key m =
     (case m_skill m of
        None \<Rightarrow> Inl (KeyError ''skill'')
      | Some s \<Rightarrow>
          Inr (- experienceProjectMths s,
               if upper (isCurrent s) = ''YES'' then - 1 else 0,
               if upper (isPrimary s) = ''YES'' then 1 else 0,
               - proficiency_order (upper (proficiency s))))"

text \<open>
  \<^verbatim>\<open>sorted(xs, key=f)\<close>: the key of every element is computed first, in order, so
  the first exception is raised; then the list is sorted stably by the keys
  (tuples compare lexicographically).
\<close>

fun keyed :: "('a \<Rightarrow> py_error + 'k) \<Rightarrow> 'a list \<Rightarrow> py_error + ('k \<times> 'a) list" where
  "keyed f [] = Inr []"
| "keyed f (x # xs) =
     (case f x of
        Inl e \<Rightarrow> Inl e
      | Inr k \<Rightarrow> (case keyed f xs of Inl e \<Rightarrow> Inl e | Inr ks \<Rightarrow> Inr ((k, x) # ks)))"

definition py_sorted :: "('a \<Rightarrow> py_error + ('k::linorder)) \<Rightarrow> 'a list \<Rightarrow> py_error + 'a list" where
  "py_sorted f xs =
     (case keyed f xs of Inl e \<Rightarrow> Inl e | Inr ks \<Rightarrow> Inr (map snd (sort_key fst ks)))"

section \<open>Profile normalizer (lines 70-78 and 94-162)\<close>

text \<open>\<^verbatim>\<open>def clean_skills(skills_struct)\<close>: the loop with its set \<^verbatim>\<open>seen\<close>.\<close>

fun clean_skills_from :: "string set \<Rightarrow> skill list \<Rightarrow> skill list" where
  "clean_skills_from seen [] = []"
| "clean_skills_from seen (s # ss) =
     (let name = normalize_text (skill_name s)
      in if name \<noteq> [] \<and> name \<notin> seen then s # clean_skills_from (insert name seen) ss
         else clean_skills_from seen ss)"

definition clean_skills :: "skill list \<Rightarrow> skill list" where
  "clean_skills skills = clean_skills_from {} skills"

text \<open>
  A raw record of the datasets. \<open>None\<close> is a key that is absent, so that
  \<^verbatim>\<open>d.get(key, default)\<close> is \<open>py_get default\<close>. The nested
  \<^verbatim>\<open>s.get("skill", {}).get("path", "")\<close> is one optional string.
\<close>

record raw_skill =
  rs_path :: "string option"
  rs_proficiency :: "string option"
  rs_isPrimary :: "string option"
  rs_isCurrent :: "string option"
  rs_experienceProjectMths :: "int option"

record raw_course =
  rc_courseName :: "string option"
  rc_completedon :: "string option"

record raw_cert =
  rt_certificationName :: "string option"
  rt_certifiedon :: "string option"

record raw_employee =
  re_empID :: "string option"
  re_name :: "string option"
  re_jobLevel :: "string option"
  re_company :: "string option"
  re_mailID :: "string option"
  re_skills :: "raw_skill list"
  re_courses :: "raw_course list"
  re_certifications :: "raw_cert list"

definition py_get :: "'a \<Rightarrow> 'a option \<Rightarrow> 'a" where
  "py_get d v = (case v of None \<Rightarrow> d | Some x \<Rightarrow> x)"

text \<open>The condition of the comprehensions: the value is there and it is not empty.\<close>

definition truthy :: "string option \<Rightarrow> bool" where
  "truthy v = (case v of None \<Rightarrow> False | Some x \<Rightarrow> x \<noteq> [])"

fun join :: "string \<Rightarrow> string list \<Rightarrow> string" where
  "join sep [] = []"
| "join sep [x] = x"
| "join sep (x # y # ys) = x @ sep @ join sep (y # ys)"

definition skill_entry :: "raw_skill \<Rightarrow> skill" where
  "skill_entry s =
     \<lparr>skill_name = py_get [] (rs_path s),
      proficiency = py_get [] (rs_proficiency s),
      isPrimary = py_get [] (rs_isPrimary s),
      isCurrent = py_get [] (rs_isCurrent s),
      experienceProjectMths = py_get 0 (rs_experienceProjectMths s)\<rparr>"

definition course_entry :: "raw_course \<Rightarrow> course" where
  "course_entry c =
     \<lparr>course_name = py_get [] (rc_courseName c), completedOn = py_get [] (rc_completedon c)\<rparr>"

definition cert_entry :: "raw_cert \<Rightarrow> cert" where
  "cert_entry c =
     \<lparr>cert_name = py_get [] (rt_certificationName c),
      certifiedOn = py_get [] (rt_certifiedon c)\<rparr>"

definition build_skills :: "raw_employee \<Rightarrow> skill list" where
  "build_skills emp =
     clean_skills (map skill_entry (filter (\<lambda>s. truthy (rs_path s)) (re_skills emp)))"

definition build_courses :: "raw_employee \<Rightarrow> course list" where
  "build_courses emp =
     map course_entry (filter (\<lambda>c. truthy (rc_courseName c)) (re_courses emp))"

definition build_certs :: "raw_employee \<Rightarrow> cert list" where
  "build_certs emp =
     map cert_entry (filter (\<lambda>c. truthy (rt_certificationName c)) (re_certifications emp))"

definition build_summary :: "raw_employee \<Rightarrow> string" where
  "build_summary emp =
     py_get [] (re_name emp) @ '' (ID: '' @ py_get [] (re_empID emp)
       @ '') is at Job Level '' @ py_get [] (re_jobLevel emp)
       @ '' in '' @ py_get [] (re_company emp)
       @ ''. Skills: '' @ join '', '' (map skill_name (build_skills emp))
       @ ''. Courses: '' @ join '', '' (map course_name (build_courses emp))
       @ ''. Certifications: '' @ join '', '' (map cert_name (build_certs emp)) @ ''.''"

definition build_profile :: "raw_employee \<Rightarrow> profile" where
  "build_profile emp =
     \<lparr>empID = py_get [] (re_empID emp),
      emp_name = py_get [] (re_name emp),
      jobLevel = py_get [] (re_jobLevel emp),
      company = py_get [] (re_company emp),
      mailID = py_get [] (re_mailID emp),
      skills_struct = build_skills emp,
      courses_struct = build_courses emp,
      certs_struct = build_certs emp,
      summary = build_summary emp\<rparr>"

text \<open>
  The metadata stored with each document of the vector index (lines 139-151). The keys
  \<^verbatim>\<open>skills\<close>, \<^verbatim>\<open>courses\<close> and \<^verbatim>\<open>certifications\<close> hold the same
  strings as the three \<^verbatim>\<open>..._list\<close> keys and are not repeated.
\<close>

record metadata =
  md_empID :: string
  md_name :: string
  md_jobLevel :: string
  md_company :: string
  md_mailID :: string
  md_skills_list :: string
  md_courses_list :: string
  md_certs_list :: string

definition build_metadata :: "raw_employee \<Rightarrow> metadata" where
  "build_metadata emp =
     \<lparr>md_empID = py_get [] (re_empID emp),
      md_name = py_get [] (re_name emp),
      md_jobLevel = py_get [] (re_jobLevel emp),
      md_company = py_get [] (re_company emp),
      md_mailID = py_get [] (re_mailID emp),
      md_skills_list = join '', '' (map skill_name (build_skills emp)),
      md_courses_list = join '', '' (map course_name (build_courses emp)),
      md_certs_list = join '', '' (map cert_name (build_certs emp))\<rparr>"

section \<open>The query (lines 177-271)\<close>

text \<open>
  \<^verbatim>\<open>re.search(r"who knows (.+?)(\?|$)", query.lower())\<close>. After the literal, the lazy
  group takes at least one character other than a newline and ends at the first place
  where a question mark follows or the text ends (\<^verbatim>\<open>$\<close> also matches before a
  final newline). \<open>lazy_group\<close> gets the characters taken so far and the rest;
  \<open>re_search\<close> tries the start positions from the left.
\<close>

fun lazy_group :: "string \<Rightarrow> string \<Rightarrow> string option" where
  "lazy_group acc [] = (if acc \<noteq> [] then Some acc else None)"
| "lazy_group acc (c # cs) =
     (if acc \<noteq> [] \<and> (c = CHR ''?'' \<or> (c = CHR 0x0A \<and> cs = [])) then Some acc
      else if c = CHR 0x0A then None
      else lazy_group (acc @ [c]) cs)"

fun re_search :: "string \<Rightarrow> string option" where
  "re_search [] = None"
| "re_search (c # cs) =
     (if prefix ''who knows '' (c # cs)
      then (case lazy_group [] (drop 10 (c # cs)) of
              Some g \<Rightarrow> Some g
            | None \<Rightarrow> re_search cs)
      else re_search cs)"

definition extract_skill_phrase :: "string \<Rightarrow> string option" where
  "extract_skill_phrase query = map_option strip (re_search (lower query))"

definition rewrite_phrase :: "string \<Rightarrow> string" where
  "rewrite_phrase p = str_replace '' or '' ''|'' (str_replace '' and '' ''|'' p)"

text \<open>Lines 196-231: the five symbolic tiers, merged by employee id.\<close>

definition tag :: "tier \<Rightarrow> match list \<Rightarrow> match list" where
  "tag t ms = map (\<lambda>m. m\<lparr>match_type := Some t\<rparr>) ms"

definition match_id :: "match \<Rightarrow> string" where
  "match_id m = empID (m_profile m)"

definition existing_ids :: "match list \<Rightarrow> string set" where
  "existing_ids tops = set (map match_id tops)"

definition extend_new :: "match list \<Rightarrow> match list \<Rightarrow> match list" where
  "extend_new tops ms = tops @ filter (\<lambda>m. match_id m \<notin> existing_ids tops) ms"

definition top_matches_of :: "string \<Rightarrow> profile list \<Rightarrow> match list" where
  "top_matches_of skill_phrase structured_data =
     (let skill_parts = map normalize_text (split_on CHR ''|'' skill_phrase);
          top1 = tag EXACT (find_skill_matches skill_phrase structured_data False);
          top2 = (if length skill_parts > 1
                  then extend_new top1 (tag AND (find_and_matches skill_parts structured_data))
                  else top1);
          top3 = (if length skill_parts > 1
                  then extend_new top2 (tag OR (find_or_matches skill_parts structured_data))
                  else top2);
          top4 = extend_new top3 (tag PARTIAL (find_skill_matches skill_phrase structured_data True))
      in extend_new top4 (tag COURSE (find_course_matches skill_phrase structured_data)))"

text \<open>
  Lines 233-252: the semantic fallback. The vector index is outside the program;
  \<open>ranking\<close> is its documents' metadata by decreasing similarity to the query, and
  \<^verbatim>\<open>collection.query(..., n_results=3)\<close> returns the first three. The loop prints a
  semantic match for every result whose id is new and appends nothing to
  \<^verbatim>\<open>top_matches\<close>, so \<open>n = len(top_matches)\<close> is the same in every round; its
  value is the list of the matches printed.
\<close>

fun semantic_loop :: "nat \<Rightarrow> string set \<Rightarrow> metadata list \<Rightarrow> metadata list" where
  "semantic_loop n existing [] = []"
| "semantic_loop n existing (meta # rest) =
     (if md_empID meta \<in> existing then semantic_loop n existing rest
      else meta # (if n + 1 \<ge> 3 then [] else semantic_loop n existing rest))"

text \<open>Lines 254-271: the selection of the final list.\<close>

definition best_of :: "match list \<Rightarrow> py_error + match option" where
  "best_of ms =
     (if ms = [] then Inr None
      else (case py_sorted skill_sort_key ms of
              Inl e \<Rightarrow> Inl e
            | Inr [] \<Rightarrow> Inl IndexError
            | Inr (b # _) \<Rightarrow> Inr (Some b)))"

definition ranker :: "match list \<Rightarrow> py_error + match list" where
  "ranker tops =
     (if tops = [] then Inr []
      else
        (case best_of (filter (\<lambda>m. match_type m = Some EXACT) tops) of
           Inl e \<Rightarrow> Inl e
         | Inr best_exact \<Rightarrow>
        (case (if best_exact = None then best_of (filter (\<lambda>m. match_type m = Some AND) tops)
               else Inr None) of
           Inl e \<Rightarrow> Inl e
         | Inr best_and \<Rightarrow>
        (case py_sorted skill_sort_key
                (filter (\<lambda>m. match_type m \<notin> {Some EXACT, Some AND}) tops) of
           Inl e \<Rightarrow> Inl e
         | Inr non_exacts_sorted \<Rightarrow>
             Inr ((case best_exact of
                     Some b \<Rightarrow> [b]
                   | None \<Rightarrow> (case best_and of Some b \<Rightarrow> [b] | None \<Rightarrow> []))
                  @ take 2 non_exacts_sorted)))))"

text \<open>
  The run of the script from line 185 on. \<open>Inl\<close> is the message printed before
  \<^verbatim>\<open>exit()\<close>; otherwise the record says what the run computed. With an empty
  \<^verbatim>\<open>top_matches\<close> the block of line 254 is skipped: no final list is printed,
  which \<^const>\<open>ranker\<close> gives as the empty list.
\<close>

record outcome =
  skill_phrase :: string
  top_matches :: "match list"
  fallback_invoked :: bool
  semantic_shown :: "metadata list"
  final_matches :: "py_error + match list"

definition run_query :: "profile list \<Rightarrow> metadata list \<Rightarrow> string \<Rightarrow> string + outcome" where
  "run_query structured_data ranking query =
     (case extract_skill_phrase query of
        None \<Rightarrow> Inl ''Could not extract skill phrase from query.''
      | Some extracted \<Rightarrow>
          if extracted = [] then Inl ''Could not extract skill phrase from query.''
          else
            (let phrase = rewrite_phrase extracted;
                 tops = top_matches_of phrase structured_data;
                 fallback = (length tops < 3)
             in Inr \<lparr>skill_phrase = phrase,
                     top_matches = tops,
                     fallback_invoked = fallback,
                     semantic_shown =
                       (if fallback
                        then semantic_loop (length tops) (existing_ids tops) (take 3 ranking)
                        else []),
                     final_matches = ranker tops\<rparr>))"

section \<open>Notions used to state the properties\<close>

text \<open>A character that \<^const>\<open>normalize_text\<close> keeps: neither hyphen nor underscore.\<close>

definition plain_char :: "char \<Rightarrow> bool" where
  "plain_char c = (c \<noteq> CHR ''-'' \<and> c \<noteq> CHR ''_'')"

text \<open>A string that neither begins nor ends with whitespace.\<close>

definition no_outer_space :: "string \<Rightarrow> bool" where
  "no_outer_space s = (s = [] \<or> (\<not> is_space (hd s) \<and> \<not> is_space (last s)))"

text \<open>The sort key, field by field, and "\<open>m1\<close> has the strictly smaller key".\<close>

definition sorts_before :: "match \<Rightarrow> match \<Rightarrow> bool" where
  "sorts_before m1 m2 =
     (case (skill_sort_key m1, skill_sort_key m2) of
        (Inr k1, Inr k2) \<Rightarrow> k1 < k2
      | _ \<Rightarrow> False)"

definition current_key :: "skill \<Rightarrow> int" where
  "current_key s = (if upper (isCurrent s) = ''YES'' then - 1 else 0)"

definition primary_key :: "skill \<Rightarrow> int" where
  "primary_key s = (if upper (isPrimary s) = ''YES'' then 1 else 0)"

definition proficiency_rank :: "skill \<Rightarrow> int" where
  "proficiency_rank s = proficiency_order (upper (proficiency s))"

text \<open>The line the script prints before it exits without a phrase (line 187).\<close>

definition no_phrase_message :: string where
  "no_phrase_message = ''Could not extract skill phrase from query.''"

text \<open>\<^verbatim>\<open>skill_parts\<close> of lines 16 and 191.\<close>

definition skill_parts_of :: "string \<Rightarrow> string list" where
  "skill_parts_of phrase = map normalize_text (split_on CHR ''|'' phrase)"

text \<open>The order in which lines 198-231 run the tiers.\<close>

definition tier_rank :: "tier \<Rightarrow> nat" where
  "tier_rank t = (case t of EXACT \<Rightarrow> 0 | AND \<Rightarrow> 1 | OR \<Rightarrow> 2 | PARTIAL \<Rightarrow> 3 | COURSE \<Rightarrow> 4)"

text \<open>What the script computes for a tier before it merges it (lines 198, 203-204, 211-212, 219, 226).\<close>

definition tier_matches :: "tier \<Rightarrow> string \<Rightarrow> profile list \<Rightarrow> match list" where
  "tier_matches t phrase data =
     (case t of
        EXACT \<Rightarrow> find_skill_matches phrase data False
      | AND \<Rightarrow> if length (skill_parts_of phrase) > 1
               then find_and_matches (skill_parts_of phrase) data else []
      | OR \<Rightarrow> if length (skill_parts_of phrase) > 1
              then find_or_matches (skill_parts_of phrase) data else []
      | PARTIAL \<Rightarrow> find_skill_matches phrase data True
      | COURSE \<Rightarrow> find_course_matches phrase data)"

text \<open>The tests of the inner loops, on one skill or course.\<close>

definition exact_test :: "string \<Rightarrow> skill \<Rightarrow> bool" where
  "exact_test phrase s = (normalize_text phrase = normalize_text (skill_name s))"

definition and_test :: "string list \<Rightarrow> skill \<Rightarrow> bool" where
  "and_test parts s = (\<forall>part\<in>set parts. sublist part (normalize_text (skill_name s)))"

definition or_test :: "string list \<Rightarrow> skill \<Rightarrow> bool" where
  "or_test parts s = (\<exists>part\<in>set parts. sublist part (normalize_text (skill_name s)))"

definition course_test :: "string \<Rightarrow> course \<Rightarrow> bool" where
  "course_test phrase c =
     (sublist (normalize_text phrase) (normalize_text (course_name c))
      \<or> (\<exists>part\<in>set (split_on CHR ''|'' (normalize_text phrase)).
            sublist part (normalize_text (course_name c))))"

text \<open>A profile passes a tier when one of its skills (courses) passes the tier's test.\<close>

definition tier_hit :: "tier \<Rightarrow> string \<Rightarrow> profile \<Rightarrow> bool" where
  "tier_hit t phrase p =
     (case t of
        EXACT \<Rightarrow> \<exists>s\<in>set (skills_struct p). exact_test phrase s
      | AND \<Rightarrow> length (skill_parts_of phrase) > 1
               \<and> (\<exists>s\<in>set (skills_struct p). and_test (skill_parts_of phrase) s)
      | OR \<Rightarrow> length (skill_parts_of phrase) > 1
              \<and> (\<exists>s\<in>set (skills_struct p). or_test (skill_parts_of phrase) s)
      | PARTIAL \<Rightarrow> \<exists>s\<in>set (skills_struct p).
                    exact_test phrase s \<or> or_test (skill_parts_of phrase) s
      | COURSE \<Rightarrow> \<exists>c\<in>set (courses_struct p). course_test phrase c)"

text \<open>A tier's matches with their \<^verbatim>\<open>match_type\<close> set (lines 199-200 and the like).\<close>

definition tagged :: "tier \<Rightarrow> string \<Rightarrow> profile list \<Rightarrow> match list" where
  "tagged t phrase data = tag t (tier_matches t phrase data)"

text \<open>Keeping, for every key, the first element that has it.\<close>

fun dedup_first :: "('a \<Rightarrow> 'k) \<Rightarrow> 'a list \<Rightarrow> 'a list" where
  "dedup_first key [] = []"
| "dedup_first key (x # xs) = x # dedup_first key (filter (\<lambda>y. key y \<noteq> key x) xs)"

text \<open>The key of the deduplication: the normalized skill name.\<close>

definition norm_name :: "skill \<Rightarrow> string" where
  "norm_name s = normalize_text (skill_name s)"

text \<open>
  The skills of a profile as the specification words them: entries with an empty name
  are discarded, the rest is deduplicated by normalized name, first occurrence kept.
  To be compared with \<^const>\<open>build_skills\<close>, which is the program.
\<close>

definition spec_build_skills :: "raw_employee \<Rightarrow> skill list" where
  "spec_build_skills emp =
     dedup_first norm_name
       (filter (\<lambda>s. skill_name s \<noteq> []) (map skill_entry (re_skills emp)))"

text \<open>The match has the key \<^verbatim>\<open>"skill"\<close>.\<close>

definition has_skill :: "match \<Rightarrow> bool" where
  "has_skill m = (m_skill m \<noteq> None)"

text \<open>
  The sort key as the specification words it: the tuple of the skill, and the default
  key (0 experience, not current, not primary, rank 0) for a match without a skill.
\<close>

definition spec_sort_key :: "match \<Rightarrow> int \<times> int \<times> int \<times> int" where
  "spec_sort_key m =
     (case m_skill m of
        None \<Rightarrow> (0, 0, 0, 0)
      | Some s \<Rightarrow> (- experienceProjectMths s, current_key s, primary_key s, - proficiency_rank s))"

text \<open>The three lists of lines 255, 260 and 263.\<close>

definition exacts_of :: "match list \<Rightarrow> match list" where
  "exacts_of tops = filter (\<lambda>m. match_type m = Some EXACT) tops"

definition ands_of :: "match list \<Rightarrow> match list" where
  "ands_of tops = filter (\<lambda>m. match_type m = Some AND) tops"

definition others_of :: "match list \<Rightarrow> match list" where
  "others_of tops = filter (\<lambda>m. match_type m \<noteq> Some EXACT \<and> match_type m \<noteq> Some AND) tops"

text \<open>
  The selection as the specification words it: the best EXACT match or else the best AND
  match, then the first two of the other matches sorted by the key
  (\<^const>\<open>sort_key\<close> is a stable sort).
\<close>

definition spec_best :: "match list \<Rightarrow> match list" where
  "spec_best ms = take 1 (sort_key spec_sort_key ms)"

definition spec_final :: "match list \<Rightarrow> match list" where
  "spec_final tops =
     (if exacts_of tops \<noteq> [] then spec_best (exacts_of tops) else spec_best (ands_of tops))
     @ take 2 (sort_key spec_sort_key (others_of tops))"

text \<open>
  Every match whose key the selection computes has a skill: the EXACT matches, the AND
  matches when there is no EXACT match, and all the others.
\<close>

definition rankable :: "match list \<Rightarrow> bool" where
  "rankable tops =
     (list_all has_skill (exacts_of tops)
      \<and> (exacts_of tops = [] \<longrightarrow> list_all has_skill (ands_of tops))
      \<and> list_all has_skill (others_of tops))"

text \<open>The results of the vector index whose employee id is not in the merged list.\<close>

definition new_results :: "match list \<Rightarrow> metadata list \<Rightarrow> metadata list" where
  "new_results tops ranking =
     filter (\<lambda>meta. md_empID meta \<notin> existing_ids tops) (take 3 ranking)"

text \<open>A run, reduced to the ids: fallback called, semantic matches printed, merged list, final list.\<close>

definition show_run :: "string + outcome \<Rightarrow> string + (bool \<times> string list \<times> string list \<times> (py_error + string list))" where
  "show_run r =
     map_sum id (\<lambda>out. (fallback_invoked out, map md_empID (semantic_shown out),
        map match_id (top_matches out), map_sum id (map match_id) (final_matches out))) r"

section \<open>Example data\<close>

definition example_skill :: "string \<Rightarrow> int \<Rightarrow> string \<Rightarrow> string \<Rightarrow> string \<Rightarrow> skill" where
  "example_skill n months current primary prof =
     \<lparr>skill_name = n, proficiency = prof, isPrimary = primary, isCurrent = current,
      experienceProjectMths = months\<rparr>"

definition example_profile :: "string \<Rightarrow> skill list \<Rightarrow> course list \<Rightarrow> profile" where
  "example_profile i ss cs =
     \<lparr>empID = i, emp_name = i, jobLevel = [], company = [], mailID = [],
      skills_struct = ss, courses_struct = cs, certs_struct = [], summary = []\<rparr>"

definition python36 :: skill where
  "python36 = example_skill ''Python'' 36 ''NO'' ''NO'' ''COMPETENT''"

definition python12 :: skill where
  "python12 = example_skill ''Python'' 12 ''YES'' ''NO'' ''COMPETENT''"

definition python12_primary :: skill where
  "python12_primary = example_skill ''Python'' 12 ''YES'' ''YES'' ''EXPERT''"

definition p1 :: profile where
  "p1 = example_profile ''P1'' [example_skill ''NLP-BigData-Engineering'' 24 ''YES'' ''YES'' ''EXPERT''] []"

definition p2 :: profile where
  "p2 = example_profile ''P2'' [example_skill ''NLP Basics'' 6 ''NO'' ''NO'' ''BEGINNER''] []"

definition p3 :: profile where
  "p3 = example_profile ''P3'' [example_skill ''Hadoop'' 12 ''YES'' ''NO'' ''COMPETENT'']
          [\<lparr>course_name = ''Intro to NLP'', completedOn = ''2024-01-01''\<rparr>]"

definition p4 :: profile where
  "p4 = example_profile ''P4'' [example_skill ''Big Data'' 48 ''YES'' ''YES'' ''EXPERT'',
          example_skill ''Big Data Analytics'' 60 ''YES'' ''YES'' ''EXPERT''] []"

definition example_meta :: "string \<Rightarrow> metadata" where
  "example_meta i =
     \<lparr>md_empID = i, md_name = i, md_jobLevel = [], md_company = [], md_mailID = [],
      md_skills_list = [], md_courses_list = [], md_certs_list = []\<rparr>"

definition team :: "profile list" where
  "team = [p1, p2, p3, p4]"

definition nlp_bigdata :: "string list" where
  "nlp_bigdata = [''nlp'', ''bigdata'']"

definition p5 :: profile where
  "p5 = example_profile ''P5'' [example_skill ''Big Data'' 12 ''YES'' ''NO'' ''EXPERT'',
          example_skill ''NLP'' 12 ''YES'' ''NO'' ''EXPERT''] []"

definition p6 :: profile where
  "p6 = example_profile ''P6'' [example_skill ''Big Data|NLP'' 12 ''YES'' ''NO'' ''EXPERT''] []"

definition raw_skill_named :: "string \<Rightarrow> raw_skill" where
  "raw_skill_named n =
     \<lparr>rs_path = Some n, rs_proficiency = None, rs_isPrimary = None, rs_isCurrent = None,
      rs_experienceProjectMths = None\<rparr>"

definition raw_course_named :: "string \<Rightarrow> raw_course" where
  "raw_course_named n = \<lparr>rc_courseName = Some n, rc_completedon = None\<rparr>"

definition raw_example :: "raw_skill list \<Rightarrow> raw_course list \<Rightarrow> raw_employee" where
  "raw_example ss cs =
     \<lparr>re_empID = Some ''E1'', re_name = Some ''Asha'', re_jobLevel = None, re_company = None,
      re_mailID = None, re_skills = ss, re_courses = cs, re_certifications = []\<rparr>"

definition asha :: raw_employee where
  "asha = raw_example
     [raw_skill_named ''Big-Data'', raw_skill_named [], raw_skill_named ''big_data'',
      raw_skill_named '' '', raw_skill_named ''NLP'']
     [raw_course_named ''Statistics'', raw_course_named ''Statistics'', raw_course_named []]"

definition py_exact12 :: profile where
  "py_exact12 = example_profile ''P7'' [python12] []"

definition py_exact36 :: profile where
  "py_exact36 = example_profile ''P8'' [python36] []"

definition py_scripting :: profile where
  "py_scripting = example_profile ''P9'' [example_skill ''Python Scripting'' 5 ''YES'' ''NO'' ''EXPERT''] []"

definition py_django :: profile where
  "py_django = example_profile ''P10'' [example_skill ''Python-Django'' 50 ''NO'' ''NO'' ''BEGINNER''] []"

definition py_iron :: profile where
  "py_iron = example_profile ''P11'' [example_skill ''IronPython'' 7 ''NO'' ''YES'' ''COMPETENT''] []"

definition pythonistas :: "profile list" where
  "pythonistas = [py_exact12, py_scripting, py_exact36, py_iron, py_django]"

definition py_course :: profile where
  "py_course = example_profile ''P12'' [example_skill ''Java'' 80 ''YES'' ''YES'' ''EXPERT'']
     [\<lparr>course_name = ''Python Basics'', completedOn = ''2023-05-01''\<rparr>]"

definition nlp_ranking :: "metadata list" where
  "nlp_ranking = [example_meta ''P4'', example_meta ''P1'', example_meta ''P2'', example_meta ''P3'']"

section \<open>Facts about text\<close>

lemma replace_from_single:
  "replace_from [d] [] 0 s = filter (\<lambda>c. c \<noteq> d) s"
  by (induction s) auto

lemma str_replace_single: "str_replace [d] [] s = filter (\<lambda>c. c \<noteq> d) s"
  by (simp add: str_replace_def replace_from_single)

lemma strip_Nil: "strip [] = []"
  by (simp add: strip_def)

lemma normalize_text_eq: "normalize_text x = filter plain_char (lower (strip x))"
proof (cases "x = []")
  case True
  then show ?thesis by (simp add: normalize_text_def strip_Nil lower_def)
next
  case False
  have "filter (\<lambda>c. c \<noteq> CHR ''_'') (filter (\<lambda>c. c \<noteq> CHR ''-'') ys) = filter plain_char ys" for ys
    by (induction ys) (auto simp: plain_char_def)
  with False show ?thesis
    by (simp add: normalize_text_def str_replace_single)
qed

lemma of_char_lower_char:
  "(of_char (lower_char c) :: nat) =
     (if (65 \<le> (of_char c :: nat) \<and> (of_char c :: nat) \<le> 90) \<or> (192 \<le> (of_char c :: nat) \<and> (of_char c :: nat) \<le> 214)
         \<or> (216 \<le> (of_char c :: nat) \<and> (of_char c :: nat) \<le> 222)
      then of_char c + 32 else of_char c)"
  by (simp add: lower_char_def Let_def)

lemma lower_char_idem: "lower_char (lower_char c) = lower_char c"
  by (rule of_char_eqI[where ?'a = nat]) (simp add: of_char_lower_char)

lemma plain_char_code: "plain_char c = ((of_char c :: nat) \<noteq> 45 \<and> (of_char c :: nat) \<noteq> 95)"
proof -
  have "(c = CHR ''-'') = ((of_char c :: nat) = of_char CHR ''-'')"
    and "(c = CHR ''_'') = ((of_char c :: nat) = of_char CHR ''_'')"
    by (simp_all only: of_char_eq_iff)
  then show ?thesis by (simp add: plain_char_def)
qed

lemma plain_lower_char: "plain_char (lower_char c) = plain_char c"
  by (simp add: plain_char_code of_char_lower_char)

lemma is_space_lower_char: "is_space (lower_char c) = is_space c"
  by (simp add: is_space_def of_char_lower_char)

lemma strip_lower: "strip (lower s) = lower (strip s)"
proof -
  have comp: "is_space \<circ> lower_char = is_space"
    by (simp add: fun_eq_iff is_space_lower_char)
  show ?thesis
    by (simp add: strip_def lower_def dropWhile_map rev_map comp)
qed

lemma set_strip: "set (strip s) \<subseteq> set s"
proof -
  have "set (dropWhile is_space (rev (dropWhile is_space s))) \<subseteq> set (dropWhile is_space s)"
    using set_dropWhileD[of _ is_space "rev (dropWhile is_space s)"] by auto
  moreover have "set (dropWhile is_space s) \<subseteq> set s"
    using set_dropWhileD[of _ is_space s] by auto
  ultimately show ?thesis by (auto simp: strip_def)
qed

lemma strip_idem: "strip (strip s) = strip s"
proof -
  define t where "t = dropWhile is_space s"
  define u where "u = dropWhile is_space (rev t)"
  have u: "u = [] \<or> \<not> is_space (hd u)"
    unfolding u_def by (metis hd_dropWhile)
  have t: "t = [] \<or> \<not> is_space (hd t)"
    unfolding t_def by (metis hd_dropWhile)
  have "dropWhile is_space (rev u) = rev u"
  proof (cases "u = []")
    case True then show ?thesis by simp
  next
    case False
    obtain ws where ws: "rev t = ws @ u" unfolding u_def
      by (metis takeWhile_dropWhile_id)
    then have "t = rev u @ rev ws" by (metis rev_append rev_rev_ident)
    with False have "hd (rev u) = hd t" "t \<noteq> []" by auto
    with t have "\<not> is_space (hd (rev u))" by simp
    with False show ?thesis by (cases "rev u") auto
  qed
  moreover have "dropWhile is_space u = u"
    using u by (cases u) auto
  ultimately show ?thesis
    by (simp add: strip_def t_def[symmetric] u_def[symmetric])
qed

lemma normalize_text_twice: "normalize_text (normalize_text x) = strip (normalize_text x)"
proof -
  define y where "y = normalize_text x"
  have fixed: "plain_char c \<and> lower_char c = c" if "c \<in> set y" for c
    using that by (auto simp: y_def normalize_text_eq lower_def lower_char_idem)
  have "lower (strip y) = strip y"
    unfolding lower_def using fixed set_strip[of y] by (intro map_idI) auto
  moreover have "filter plain_char (strip y) = strip y"
    using fixed set_strip[of y] by (intro filter_True) auto
  moreover have "normalize_text y = filter plain_char (lower (strip y))"
    by (rule normalize_text_eq)
  ultimately have "normalize_text y = strip y" by simp
  then show ?thesis by (simp only: y_def)
qed

lemma strip_fixed_iff: "strip s = s \<longleftrightarrow> no_outer_space s"
proof (cases "s = []")
  case True
  then show ?thesis by (simp add: no_outer_space_def strip_Nil)
next
  case False
  show ?thesis
  proof
    assume eq: "strip s = s"
    have "\<not> is_space (hd s)"
    proof
      assume sp: "is_space (hd s)"
      from False sp have "length (dropWhile is_space s) < length s"
        by (cases s) (auto simp: le_imp_less_Suc length_dropWhile_le)
      moreover have "length (strip s) \<le> length (dropWhile is_space s)"
        by (simp add: strip_def) (metis length_dropWhile_le length_rev)
      ultimately show False using eq by simp
    qed
    moreover have "\<not> is_space (last s)"
    proof
      assume sp: "is_space (last s)"
      define t where "t = dropWhile is_space s"
      from \<open>\<not> is_space (hd s)\<close> False have ts: "t = s"
        unfolding t_def by (cases s) auto
      from False sp have "is_space (hd (rev s))" by (simp add: hd_rev)
      with False have "length (dropWhile is_space (rev s)) < length (rev s)"
        by (cases "rev s") (auto simp: le_imp_less_Suc length_dropWhile_le)
      then have "length (strip s) < length s"
        by (simp add: strip_def t_def[symmetric] ts)
      with eq show False by simp
    qed
    ultimately show "no_outer_space s" by (simp add: no_outer_space_def)
  next
    assume "no_outer_space s"
    with False have h: "\<not> is_space (hd s)" and l: "\<not> is_space (last s)"
      by (simp_all add: no_outer_space_def)
    from h False have "dropWhile is_space s = s" by (cases s) auto
    moreover from l False have "dropWhile is_space (rev s) = rev s"
      by (cases "rev s") (auto simp: hd_rev[symmetric])
    ultimately show "strip s = s" by (simp add: strip_def)
  qed
qed

section \<open>Facts about the strategies\<close>

lemma scan_profiles:
  assumes "\<And>p x. m_profile (mk p x) = p"
  shows "map m_profile (List.map_filter (\<lambda>p. map_option (mk p) (find (Q p) (xs p))) data)
         = filter (\<lambda>p. \<exists>x\<in>set (xs p). Q p x) data"
proof (induction data)
  case Nil
  then show ?case by simp
next
  case (Cons p ps)
  show ?case
  proof (cases "find (Q p) (xs p)")
    case None
    then have "\<not> (\<exists>x\<in>set (xs p). Q p x)" by (simp add: find_None_iff)
    with None Cons.IH show ?thesis by simp
  next
    case (Some x)
    then have "\<exists>x\<in>set (xs p). Q p x" by (auto simp: find_Some_iff)
    with Some Cons.IH assms show ?thesis by simp
  qed
qed

lemma scan_members:
  "m \<in> set (List.map_filter (\<lambda>p. map_option (mk p) (find (Q p) (xs p))) data)
   \<longleftrightarrow> (\<exists>p\<in>set data. \<exists>x. find (Q p) (xs p) = Some x \<and> m = mk p x)"
proof (induction data)
  case Nil
  then show ?case by simp
next
  case (Cons p ps)
  then show ?case by (cases "find (Q p) (xs p)") auto
qed

lemma m_profile_skill_match: "m_profile (skill_match p s) = p"
  by (simp add: skill_match_def)

lemma m_profile_course_match: "m_profile (course_match p c) = p"
  by (simp add: course_match_def)

lemma tier_profiles:
  "map m_profile (tier_matches t phrase data) = filter (tier_hit t phrase) data"
proof (cases t)
  case EXACT
  then show ?thesis
    unfolding tier_matches_def tier_hit_def find_skill_matches_def Let_def
    by (simp add: scan_profiles[where mk = skill_match, OF m_profile_skill_match] exact_test_def)
next
  case AND
  then show ?thesis
    unfolding tier_matches_def tier_hit_def find_and_matches_def
    by (simp add: scan_profiles[where mk = skill_match, OF m_profile_skill_match]
        and_test_def list_all_iff)
next
  case OR
  then show ?thesis
    unfolding tier_matches_def tier_hit_def find_or_matches_def
    by (simp add: scan_profiles[where mk = skill_match, OF m_profile_skill_match]
        or_test_def list_ex_iff)
next
  case PARTIAL
  then show ?thesis
    unfolding tier_matches_def tier_hit_def find_skill_matches_def Let_def
    by (simp add: scan_profiles[where mk = skill_match, OF m_profile_skill_match]
        exact_test_def or_test_def list_ex_iff skill_parts_of_def)
next
  case COURSE
  then show ?thesis
    unfolding tier_matches_def tier_hit_def find_course_matches_def Let_def
    by (simp add: scan_profiles[where mk = course_match, OF m_profile_course_match]
        course_test_def list_ex_iff)
qed

lemma map_match_id_tag: "map match_id (tag t ms) = map match_id ms"
  by (simp add: tag_def match_id_def)

lemma map_m_profile_tag: "map m_profile (tag t ms) = map m_profile ms"
  by (simp add: tag_def)

lemma tagged_profiles: "map m_profile (tagged t phrase data) = filter (tier_hit t phrase) data"
  by (simp add: tagged_def map_m_profile_tag tier_profiles)

lemma tagged_ids: "map match_id (tagged t phrase data) = map empID (filter (tier_hit t phrase) data)"
proof -
  have "map match_id ms = map empID (map m_profile ms)" for ms
    by (simp add: match_id_def)
  then show ?thesis by (simp only: tagged_profiles)
qed

lemma tagged_type: "m \<in> set (tagged t phrase data) \<Longrightarrow> match_type m = Some t"
  by (auto simp: tagged_def tag_def)

lemma tagged_profile_mem:
  "m \<in> set (tagged t phrase data) \<Longrightarrow> m_profile m \<in> set data \<and> tier_hit t phrase (m_profile m)"
proof -
  assume "m \<in> set (tagged t phrase data)"
  then have "m_profile m \<in> set (map m_profile (tagged t phrase data))" by simp
  then show ?thesis by (simp only: tagged_profiles) simp
qed

lemma hit_in_tagged_ids:
  "p \<in> set data \<Longrightarrow> tier_hit t phrase p \<Longrightarrow> empID p \<in> existing_ids (tagged t phrase data)"
  by (simp add: existing_ids_def tagged_ids)

section \<open>Facts about the merge of the tiers\<close>

lemma extend_new_Nil: "extend_new tops [] = tops"
  by (simp add: extend_new_def)

lemma extend_new_first: "extend_new [] ms = ms"
  by (simp add: extend_new_def existing_ids_def)

lemma set_extend_new:
  "set (extend_new tops ms) = set tops \<union> {m \<in> set ms. match_id m \<notin> existing_ids tops}"
  by (auto simp: extend_new_def)

lemma ids_extend_new:
  "existing_ids (extend_new tops ms) = existing_ids tops \<union> existing_ids ms"
  by (auto simp: extend_new_def existing_ids_def)

lemma distinct_extend_new:
  assumes "distinct (map match_id tops)" and "distinct (map match_id ms)"
  shows "distinct (map match_id (extend_new tops ms))"
proof -
  have "set (map match_id tops) \<inter> set (map match_id (filter (\<lambda>m. match_id m \<notin> existing_ids tops) ms)) = {}"
    by (auto simp: existing_ids_def) (metis imageI)
  with assms show ?thesis
    by (simp add: extend_new_def distinct_map_filter)
qed

lemma top_matches_of_tagged:
  "top_matches_of phrase data =
     extend_new (extend_new (extend_new (extend_new (tagged EXACT phrase data)
       (tagged AND phrase data)) (tagged OR phrase data)) (tagged PARTIAL phrase data))
       (tagged COURSE phrase data)"
  by (simp add: top_matches_of_def tagged_def tier_matches_def skill_parts_of_def Let_def
      extend_new_Nil tag_def)

lemma distinct_tagged:
  "distinct (map empID data) \<Longrightarrow> distinct (map match_id (tagged t phrase data))"
  by (simp add: tagged_ids distinct_map_filter)

lemma distinct_top_matches:
  "distinct (map empID data) \<Longrightarrow> distinct (map match_id (top_matches_of phrase data))"
  by (simp only: top_matches_of_tagged) (intro distinct_extend_new distinct_tagged)

lemma all_tier: "(\<forall>t. P t) = (P EXACT \<and> P AND \<and> P OR \<and> P PARTIAL \<and> P COURSE)"
  by (metis tier.exhaust)

lemma ex_tier: "(\<exists>t. P t) = (P EXACT \<or> P AND \<or> P OR \<or> P PARTIAL \<or> P COURSE)"
  by (metis tier.exhaust)

lemma top_matches_mem:
  "m \<in> set (top_matches_of phrase data) \<longleftrightarrow>
     (\<exists>t. m \<in> set (tagged t phrase data)
        \<and> (\<forall>t'. tier_rank t' < tier_rank t \<longrightarrow> match_id m \<notin> existing_ids (tagged t' phrase data)))"
  unfolding top_matches_of_tagged set_extend_new ids_extend_new ex_tier all_tier
  by (simp add: tier_rank_def)

lemma py_sorted_pair:
  assumes "sorts_before m1 m2"
  shows "py_sorted skill_sort_key [m2, m1] = Inr [m1, m2]" "py_sorted skill_sort_key [m1, m2] = Inr [m1, m2]"
  using assms
  by (auto simp: sorts_before_def py_sorted_def split: sum.splits)

lemma re_search_no_occurrence:
  "\<not> sublist ''who knows '' s \<Longrightarrow> re_search s = None"
proof (induction s)
  case Nil
  then show ?case by simp
next
  case (Cons c cs)
  from Cons.prems have "\<not> prefix ''who knows '' (c # cs)" and "\<not> sublist ''who knows '' cs"
    using sublist_Cons_right [of "''who knows ''" c cs] by blast+
  with Cons.IH show ?case by (simp del: prefix_code)
qed

lemma inj_on_ids: "distinct (map empID data) \<Longrightarrow> p \<in> set data \<Longrightarrow> q \<in> set data \<Longrightarrow> empID p = empID q \<Longrightarrow> p = q"
  by (meson distinct_map inj_on_def)

lemma top_match_tier:
  assumes "m \<in> set (top_matches_of phrase data)"
  shows "m_profile m \<in> set data
     \<and> (\<exists>t. match_type m = Some t \<and> m \<in> set (tagged t phrase data)
            \<and> tier_hit t phrase (m_profile m)
            \<and> (\<forall>t'. tier_rank t' < tier_rank t \<longrightarrow> \<not> tier_hit t' phrase (m_profile m)))"
proof -
  from assms obtain t where t: "m \<in> set (tagged t phrase data)"
    and low: "\<forall>t'. tier_rank t' < tier_rank t \<longrightarrow> match_id m \<notin> existing_ids (tagged t' phrase data)"
    unfolding top_matches_mem by blast
  from t have mem: "m_profile m \<in> set data" and hit: "tier_hit t phrase (m_profile m)"
    using tagged_profile_mem by blast+
  have "\<not> tier_hit t' phrase (m_profile m)" if "tier_rank t' < tier_rank t" for t'
  proof
    assume "tier_hit t' phrase (m_profile m)"
    with mem have "empID (m_profile m) \<in> existing_ids (tagged t' phrase data)"
      by (rule hit_in_tagged_ids)
    with low that show False by (simp add: match_id_def)
  qed
  with t mem hit tagged_type[OF t] show ?thesis by blast
qed

lemma hit_profile_in_top:
  assumes d: "distinct (map empID data)" and p: "p \<in> set data" and h: "tier_hit t phrase p"
  shows "\<exists>m\<in>set (top_matches_of phrase data). m_profile m = p"
proof -
  from h obtain t0 where h0: "tier_hit t0 phrase p"
    and least: "\<forall>t'. tier_hit t' phrase p \<longrightarrow> tier_rank t0 \<le> tier_rank t'"
    using ex_has_least_nat[of "\<lambda>t. tier_hit t phrase p" t tier_rank] by blast
  from p h0 have "p \<in> set (map m_profile (tagged t0 phrase data))"
    by (simp only: tagged_profiles) simp
  then obtain m where m: "m \<in> set (tagged t0 phrase data)" and mp: "m_profile m = p"
    by auto
  have "match_id m \<notin> existing_ids (tagged t' phrase data)" if lt: "tier_rank t' < tier_rank t0" for t'
  proof
    assume "match_id m \<in> existing_ids (tagged t' phrase data)"
    then have "empID p \<in> set (map empID (filter (tier_hit t' phrase) data))"
      by (simp add: existing_ids_def tagged_ids match_id_def mp)
    then obtain q where q: "q \<in> set data" "tier_hit t' phrase q" "empID q = empID p"
      by auto
    with d p have "q = p" using inj_on_ids by blast
    with q least lt show False by auto
  qed
  with m have "m \<in> set (top_matches_of phrase data)"
    unfolding top_matches_mem by blast
  with mp show ?thesis by blast
qed

lemma tier_rank_0: "tier_rank t = 0 \<longleftrightarrow> t = EXACT"
  by (cases t) (simp_all add: tier_rank_def)

lemma filter_extend_new:
  "filter P (extend_new tops ms) =
     filter P tops @ filter (\<lambda>m. match_id m \<notin> existing_ids tops) (filter P ms)"
  by (auto simp: extend_new_def intro: filter_cong)

lemma filter_type_tagged:
  "filter (\<lambda>m. match_type m = Some t) (tagged t' phrase data) =
     (if t = t' then tagged t' phrase data else [])"
proof -
  have "\<forall>m\<in>set (tagged t' phrase data). match_type m = Some t'"
    using tagged_type by blast
  then show ?thesis by (auto simp: filter_empty_conv intro: filter_True)
qed

lemma existing_ids_tag: "existing_ids (tag t ms) = existing_ids ms"
  by (simp add: existing_ids_def map_match_id_tag)

lemma tag_Nil: "tag t [] = []"
  by (simp add: tag_def)

lemma and_tier_of_top:
  "filter (\<lambda>m. match_type m = Some AND) (top_matches_of phrase data) =
     filter (\<lambda>m. match_id m \<notin> existing_ids (tagged EXACT phrase data)) (tagged AND phrase data)"
  by (simp add: top_matches_of_tagged filter_extend_new filter_type_tagged)

lemma or_tier_of_top:
  "filter (\<lambda>m. match_type m = Some OR) (top_matches_of phrase data) =
     filter (\<lambda>m. match_id m \<notin> existing_ids (tagged EXACT phrase data)
                                \<union> existing_ids (tagged AND phrase data)) (tagged OR phrase data)"
  by (simp add: top_matches_of_tagged filter_extend_new filter_type_tagged ids_extend_new)

lemma find_and_matches_alt:
  "find_and_matches parts data =
     List.map_filter (\<lambda>p. map_option (skill_match p) (find (and_test parts) (skills_struct p))) data"
  by (simp add: find_and_matches_def and_test_def[abs_def] list_all_iff)

lemma find_or_matches_alt:
  "find_or_matches parts data =
     List.map_filter (\<lambda>p. map_option (skill_match p) (find (or_test parts) (skills_struct p))) data"
  by (simp add: find_or_matches_def or_test_def[abs_def] list_ex_iff)

lemma first_skill_members:
  assumes "m \<in> set (List.map_filter (\<lambda>p. map_option (skill_match p) (find Q (skills_struct p))) data)"
  shows "m_profile m \<in> set data \<and> m_skill m = find Q (skills_struct (m_profile m))
         \<and> (\<exists>s\<in>set (skills_struct (m_profile m)). m_skill m = Some s \<and> Q s) \<and> m_course m = None"
proof -
  from assms obtain p s where p: "p \<in> set data" and f: "find Q (skills_struct p) = Some s"
    and m: "m = skill_match p s"
    unfolding scan_members[where mk = skill_match and Q = "\<lambda>p. Q" and xs = skills_struct] by blast
  from f have "s \<in> set (skills_struct p) \<and> Q s"
    by (auto simp: find_Some_iff)
  with p f m show ?thesis by (simp add: skill_match_def)
qed

section \<open>Facts about the parts of a phrase\<close>

lemma split_on_nonempty: "split_on d s \<noteq> []"
  by (induction s) (auto split: list.splits)

lemma split_on_parts_free: "w \<in> set (split_on d s) \<Longrightarrow> d \<notin> set w"
proof (induction s arbitrary: w)
  case Nil
  then show ?case by simp
next
  case (Cons c cs)
  show ?case
  proof (cases "c = d")
    case True
    with Cons show ?thesis by auto
  next
    case False
    obtain v vs where vs: "split_on d cs = v # vs"
      using split_on_nonempty[of d cs] by (cases "split_on d cs") auto
    with False Cons.prems have "w = c # v \<or> w \<in> set vs" by auto
    with vs Cons.IH False show ?thesis by auto
  qed
qed

lemma split_on_two: "d \<in> set s \<Longrightarrow> 2 \<le> length (split_on d s)"
proof (induction s)
  case Nil
  then show ?case by simp
next
  case (Cons c cs)
  show ?case
  proof (cases "c = d")
    case True
    with split_on_nonempty[of d cs] show ?thesis
      by (cases "split_on d cs") auto
  next
    case False
    with Cons show ?thesis by (auto split: list.splits)
  qed
qed

lemma set_dropWhile_keeps: "c \<in> set s \<Longrightarrow> \<not> P c \<Longrightarrow> c \<in> set (dropWhile P s)"
  by (induction s) auto

lemma set_strip_keeps: "c \<in> set s \<Longrightarrow> \<not> is_space c \<Longrightarrow> c \<in> set (strip s)"
  by (simp add: strip_def set_dropWhile_keeps)

lemma bar_code: "(of_char CHR ''|'' :: nat) = 124"
  by simp

lemma lower_char_bar: "lower_char c = CHR ''|'' \<longleftrightarrow> c = CHR ''|''"
proof -
  have "(lower_char c = CHR ''|'') = ((of_char (lower_char c) :: nat) = of_char CHR ''|'')"
    by (simp only: of_char_eq_iff)
  also have "\<dots> = ((of_char c :: nat) = of_char CHR ''|'')"
    by (simp add: of_char_lower_char)
  also have "\<dots> = (c = CHR ''|'')" by (simp only: of_char_eq_iff)
  finally show ?thesis .
qed

lemma bar_in_normalize_text:
  "CHR ''|'' \<in> set (normalize_text s) \<longleftrightarrow> CHR ''|'' \<in> set s"
proof
  assume "CHR ''|'' \<in> set (normalize_text s)"
  then have "CHR ''|'' \<in> lower_char ` set (strip s)"
    by (auto simp: normalize_text_eq lower_def)
  then obtain c where "c \<in> set (strip s)" "lower_char c = CHR ''|''" by auto
  with set_strip[of s] show "CHR ''|'' \<in> set s" by (auto simp: lower_char_bar)
next
  assume a: "CHR ''|'' \<in> set s"
  have "\<not> is_space CHR ''|''" by (simp add: is_space_def)
  with a have "CHR ''|'' \<in> set (strip s)" by (rule set_strip_keeps)
  moreover have "lower_char CHR ''|'' = CHR ''|''" by (simp add: lower_char_bar)
  ultimately have "CHR ''|'' \<in> set (lower (strip s))"
    by (force simp: lower_def)
  then show "CHR ''|'' \<in> set (normalize_text s)"
    by (simp add: normalize_text_eq plain_char_def)
qed

lemma parts_differ_from_phrase:
  assumes "CHR ''|'' \<in> set phrase" and "part \<in> set (skill_parts_of phrase)"
  shows "part \<noteq> normalize_text phrase"
proof -
  from assms(2) obtain w where w: "w \<in> set (split_on CHR ''|'' phrase)" and p: "part = normalize_text w"
    by (auto simp: skill_parts_of_def)
  from w have "CHR ''|'' \<notin> set w" by (rule split_on_parts_free)
  then have "CHR ''|'' \<notin> set part" by (simp add: p bar_in_normalize_text)
  moreover from assms(1) have "CHR ''|'' \<in> set (normalize_text phrase)"
    by (simp add: bar_in_normalize_text)
  ultimately show ?thesis by auto
qed

lemma find_skill_matches_exact_alt:
  "find_skill_matches phrase data False =
     List.map_filter (\<lambda>p. map_option (skill_match p) (find (exact_test phrase) (skills_struct p))) data"
  by (simp add: find_skill_matches_def exact_test_def[abs_def] Let_def)

lemma tagged_skill_members:
  assumes "m \<in> set (tag t (List.map_filter (\<lambda>p. map_option (skill_match p) (find Q (skills_struct p))) data))"
  shows "\<exists>s\<in>set (skills_struct (m_profile m)). m_skill m = Some s \<and> Q s"
proof -
  from assms obtain m0 where m0: "m0 \<in> set (List.map_filter (\<lambda>p. map_option (skill_match p) (find Q (skills_struct p))) data)"
    and m: "m = m0\<lparr>match_type := Some t\<rparr>"
    by (auto simp: tag_def)
  from first_skill_members[OF m0] obtain s where
    "s \<in> set (skills_struct (m_profile m0))" "m_skill m0 = Some s" "Q s" by blast
  with m show ?thesis by auto
qed

section \<open>Facts about the profile normalizer\<close>

lemma clean_skills_from_eq:
  "clean_skills_from seen ss =
     dedup_first norm_name (filter (\<lambda>s. norm_name s \<noteq> [] \<and> norm_name s \<notin> seen) ss)"
proof (induction ss arbitrary: seen)
  case Nil
  then show ?case by simp
next
  case (Cons s ss)
  show ?case
  proof (cases "norm_name s \<noteq> [] \<and> norm_name s \<notin> seen")
    case True
    have "filter (\<lambda>y. norm_name y \<noteq> norm_name s)
            (filter (\<lambda>s. norm_name s \<noteq> [] \<and> norm_name s \<notin> seen) ss)
        = filter (\<lambda>t. norm_name t \<noteq> [] \<and> norm_name t \<notin> insert (norm_name s) seen) ss"
      by (auto intro: filter_cong)
    with True Cons.IH[of "insert (norm_name s) seen"] show ?thesis
      by (simp add: norm_name_def[symmetric] Let_def)
  next
    case False
    with Cons.IH[of seen] show ?thesis
      by (auto simp: norm_name_def[symmetric] Let_def)
  qed
qed

lemma clean_skills_eq:
  "clean_skills ss = dedup_first norm_name (filter (\<lambda>s. norm_name s \<noteq> []) ss)"
  by (simp add: clean_skills_def clean_skills_from_eq)

lemma normalize_text_Nil: "normalize_text [] = []"
  by (simp add: normalize_text_def)

lemma truthy_path: "truthy (rs_path r) = (skill_name (skill_entry r) \<noteq> [])"
  by (cases "rs_path r") (simp_all add: truthy_def skill_entry_def py_get_def)

lemma set_dedup_first: "set (dedup_first key xs) \<subseteq> set xs"
proof (induction key xs rule: dedup_first.induct)
  case (1 key)
  then show ?case by simp
next
  case (2 key x xs)
  then show ?case by auto
qed

lemma distinct_dedup_first: "distinct (map key (dedup_first key xs))"
proof (induction key xs rule: dedup_first.induct)
  case (1 key)
  then show ?case by simp
next
  case (2 key x xs)
  have "set (dedup_first key (filter (\<lambda>y. key y \<noteq> key x) xs)) \<subseteq> {y. key y \<noteq> key x}"
    using set_dedup_first[of key "filter (\<lambda>y. key y \<noteq> key x) xs"] by auto
  with 2 show ?case by auto
qed

lemma subseq_dedup_first: "subseq (dedup_first key xs) xs"
proof (induction key xs rule: dedup_first.induct)
  case (1 key)
  then show ?case by simp
next
  case (2 key x xs)
  have "subseq (filter (\<lambda>y. key y \<noteq> key x) xs) xs" by simp
  with 2 have "subseq (dedup_first key (filter (\<lambda>y. key y \<noteq> key x) xs)) xs"
    using subseq_order.order_trans by blast
  then show ?case by simp
qed

lemma keys_dedup_first: "set (map key (dedup_first key xs)) = set (map key xs)"
proof (induction key xs rule: dedup_first.induct)
  case (1 key)
  then show ?case by simp
next
  case (2 key x xs)
  then show ?case by auto
qed


lemma find_filter_implied:
  "(\<And>y. P y \<Longrightarrow> Q y) \<Longrightarrow> find P (filter Q xs) = find P xs"
  by (induction xs) auto

lemma dedup_first_is_first:
  "x \<in> set (dedup_first key xs) \<Longrightarrow> find (\<lambda>y. key y = key x) xs = Some x"
proof (induction key xs rule: dedup_first.induct)
  case (1 key)
  then show ?case by simp
next
  case (2 key x0 xs)
  show ?case
  proof (cases "x = x0")
    case True
    then show ?thesis by simp
  next
    case False
    with "2.prems" have mem: "x \<in> set (dedup_first key (filter (\<lambda>y. key y \<noteq> key x0) xs))"
      by simp
    then have f: "find (\<lambda>y. key y = key x) (filter (\<lambda>y. key y \<noteq> key x0) xs) = Some x"
      by (rule "2.IH")
    from mem set_dedup_first[of key "filter (\<lambda>y. key y \<noteq> key x0) xs"]
    have ne: "key x \<noteq> key x0" by auto
    then have "find (\<lambda>y. key y = key x) (filter (\<lambda>y. key y \<noteq> key x0) xs)
        = find (\<lambda>y. key y = key x) xs"
      by (intro find_filter_implied) auto
    with f ne show ?thesis by auto
  qed
qed

lemma build_skills_eq:
  "build_skills emp =
     dedup_first norm_name (filter (\<lambda>s. norm_name s \<noteq> []) (map skill_entry (re_skills emp)))"
proof -
  have "filter (\<lambda>s. norm_name s \<noteq> []) (map skill_entry (filter (\<lambda>s. truthy (rs_path s)) rs))
      = filter (\<lambda>s. norm_name s \<noteq> []) (map skill_entry rs)" for rs
    by (induction rs) (auto simp: truthy_path norm_name_def normalize_text_Nil)
  then show ?thesis
    by (simp add: build_skills_def clean_skills_eq)
qed

section \<open>Facts about the sort key and the selection\<close>

lemma skill_sort_key_eq:
  "skill_sort_key m = (if has_skill m then Inr (spec_sort_key m) else Inl (KeyError ''skill''))"
  by (cases "m_skill m")
     (simp_all add: skill_sort_key_def has_skill_def spec_sort_key_def current_key_def
        primary_key_def proficiency_rank_def)

lemma keyed_skill:
  "keyed skill_sort_key xs =
     (if list_all has_skill xs then Inr (map (\<lambda>m. (spec_sort_key m, m)) xs)
      else Inl (KeyError ''skill''))"
  by (induction xs) (simp_all add: skill_sort_key_eq)

lemma insort_key_decorated:
  "insort_key fst (k x, x) (map (\<lambda>y. (k y, y)) ys) = map (\<lambda>y. (k y, y)) (insort_key k x ys)"
  by (induction ys) simp_all

lemma sort_key_decorated:
  "sort_key fst (map (\<lambda>y. (k y, y)) xs) = map (\<lambda>y. (k y, y)) (sort_key k xs)"
  by (induction xs) (simp_all add: insort_key_decorated)

lemma py_sorted_skill:
  "py_sorted skill_sort_key xs =
     (if list_all has_skill xs then Inr (sort_key spec_sort_key xs) else Inl (KeyError ''skill''))"
  by (simp add: py_sorted_def keyed_skill sort_key_decorated comp_def)

lemma sort_key_Nil_iff: "sort_key k xs = [] \<longleftrightarrow> xs = []"
  by (metis length_0_conv length_sort)

lemma best_of_eq:
  "best_of ms =
     (if list_all has_skill ms
      then Inr (case sort_key spec_sort_key ms of [] \<Rightarrow> None | b # _ \<Rightarrow> Some b)
      else Inl (KeyError ''skill''))"
proof (cases "ms = []")
  case True
  then show ?thesis by (simp add: best_of_def)
next
  case False
  then have "sort_key spec_sort_key ms \<noteq> []" by (simp add: sort_key_Nil_iff)
  with False show ?thesis
    by (cases "sort_key spec_sort_key ms") (simp_all add: best_of_def py_sorted_skill)
qed

lemma spec_best_cases:
  "spec_best ms = (case sort_key spec_sort_key ms of [] \<Rightarrow> [] | b # _ \<Rightarrow> [b])"
  by (cases "sort_key spec_sort_key ms") (simp_all add: spec_best_def)

lemma ranker_eq:
  "ranker tops = (if rankable tops then Inr (spec_final tops) else Inl (KeyError ''skill''))"
proof (cases "tops = []")
  case True
  then show ?thesis
    by (simp add: ranker_def rankable_def spec_final_def spec_best_def exacts_of_def ands_of_def others_of_def)
next
  case False
  have others: "filter (\<lambda>m. match_type m \<notin> {Some EXACT, Some AND}) tops = others_of tops"
    by (simp add: others_of_def)
  show ?thesis
  proof (cases "exacts_of tops = []")
    case True
    then have se: "sort_key spec_sort_key (exacts_of tops) = []" by simp
    from False True show ?thesis
      unfolding ranker_def others exacts_of_def[symmetric] ands_of_def[symmetric]
      by (cases "sort_key spec_sort_key (ands_of tops)")
         (simp_all add: best_of_eq py_sorted_skill rankable_def spec_final_def spec_best_cases)
  next
    case ne: False
    then have "sort_key spec_sort_key (exacts_of tops) \<noteq> []" by (simp add: sort_key_Nil_iff)
    then obtain b bs where "sort_key spec_sort_key (exacts_of tops) = b # bs"
      by (cases "sort_key spec_sort_key (exacts_of tops)") auto
    with False ne show ?thesis
      unfolding ranker_def others exacts_of_def[symmetric] ands_of_def[symmetric]
      by (simp add: best_of_eq py_sorted_skill rankable_def spec_final_def spec_best_cases)
  qed
qed


lemma length_spec_final: "length (spec_final tops) \<le> 3"
  by (auto simp: spec_final_def spec_best_def)

lemma set_spec_best: "set (spec_best ms) \<subseteq> set ms"
  using set_take_subset[of 1 "sort_key spec_sort_key ms"] by (simp add: spec_best_def)

lemma set_spec_final: "set (spec_final tops) \<subseteq> set tops"
proof -
  have "set (take 2 (sort_key spec_sort_key (others_of tops))) \<subseteq> set tops"
    using set_take_subset[of 2 "sort_key spec_sort_key (others_of tops)"]
    by (auto simp: others_of_def)
  moreover have "set (spec_best (exacts_of tops)) \<subseteq> set tops"
    using set_spec_best[of "exacts_of tops"] by (auto simp: exacts_of_def)
  moreover have "set (spec_best (ands_of tops)) \<subseteq> set tops"
    using set_spec_best[of "ands_of tops"] by (auto simp: ands_of_def)
  ultimately show ?thesis by (simp add: spec_final_def)
qed

lemma spec_best_least:
  assumes "b \<in> set (spec_best ms)"
  shows "b \<in> set ms \<and> (\<forall>m\<in>set ms. spec_sort_key b \<le> spec_sort_key m)"
proof -
  from assms obtain bs where srt: "sort_key spec_sort_key ms = b # bs"
    by (cases "sort_key spec_sort_key ms") (auto simp: spec_best_def)
  have "sorted (map spec_sort_key (sort_key spec_sort_key ms))" by (rule sorted_sort_key)
  with srt have "\<forall>m\<in>set (b # bs). spec_sort_key b \<le> spec_sort_key m" by auto
  moreover have "set (b # bs) = set ms" using srt by (metis set_sort)
  ultimately show ?thesis by auto
qed

lemma length_spec_best: "ms \<noteq> [] \<Longrightarrow> length (spec_best ms) = 1"
proof -
  assume "ms \<noteq> []"
  then have "length (sort_key spec_sort_key ms) \<ge> 1" by (cases ms) simp_all
  then show ?thesis by (simp add: spec_best_def)
qed

lemma distinct_ids_sort:
  "distinct (map match_id ms) \<Longrightarrow> distinct (map match_id (sort_key k ms))"
  by (simp add: distinct_map)

lemma distinct_spec_final:
  assumes "distinct (map match_id tops)"
  shows "distinct (map match_id (spec_final tops))"
proof -
  from assms have inj: "inj_on match_id (set tops)" and d: "distinct tops"
    by (simp_all add: distinct_map)
  let ?rest = "take 2 (sort_key spec_sort_key (others_of tops))"
  let ?best = "if exacts_of tops \<noteq> [] then spec_best (exacts_of tops) else spec_best (ands_of tops)"
  have rest_sub: "set ?rest \<subseteq> set (others_of tops)"
    using set_take_subset[of 2 "sort_key spec_sort_key (others_of tops)"] by simp
  have best_sub: "set ?best \<subseteq> set (exacts_of tops) \<union> set (ands_of tops)"
    using set_spec_best[of "exacts_of tops"] set_spec_best[of "ands_of tops"] by auto
  have disj: "set ?best \<inter> set ?rest = {}"
    using rest_sub best_sub by (auto simp: exacts_of_def ands_of_def others_of_def)
  have "distinct (others_of tops)" using d by (simp add: others_of_def)
  then have dr: "distinct ?rest" by simp
  have "distinct (take 1 xs)" for xs :: "match list" by (cases xs) simp_all
  then have db: "distinct ?best" by (simp add: spec_best_def)
  from dr db disj have "distinct (spec_final tops)" by (simp add: spec_final_def)
  moreover from inj set_spec_final[of tops] have "inj_on match_id (set (spec_final tops))"
    by (rule inj_on_subset)
  ultimately show ?thesis by (simp add: distinct_map)
qed

lemma scan_built:
  "m \<in> set (List.map_filter (\<lambda>p. map_option (mk p) (f p)) data) \<Longrightarrow> \<exists>p x. m = mk p x"
proof (induction data)
  case Nil
  then show ?case by simp
next
  case (Cons p ps)
  then show ?case by (cases "f p") auto
qed

lemma tier_matches_skill:
  assumes "m \<in> set (tier_matches t phrase data)"
  shows "has_skill m = (t \<noteq> COURSE)"
proof (cases "t = COURSE")
  case True
  with assms obtain p c where "m = course_match p c"
    unfolding tier_matches_def find_course_matches_def Let_def
    using scan_built[where mk = course_match] by fastforce
  with True show ?thesis by (simp add: has_skill_def course_match_def)
next
  case False
  with assms obtain p s where "m = skill_match p s"
    unfolding tier_matches_def find_skill_matches_def find_and_matches_def find_or_matches_def Let_def
    using scan_built[where mk = skill_match]
    by (cases t) (fastforce split: if_splits)+
  with False show ?thesis by (simp add: has_skill_def skill_match_def)
qed

lemma top_match_skill:
  assumes "m \<in> set (top_matches_of phrase data)"
  shows "has_skill m = (match_type m \<noteq> Some COURSE)"
proof -
  from top_match_tier[OF assms] obtain t where t: "match_type m = Some t"
    and m: "m \<in> set (tagged t phrase data)" by blast
  from m obtain m0 where "m0 \<in> set (tier_matches t phrase data)" and "m = m0\<lparr>match_type := Some t\<rparr>"
    by (auto simp: tagged_def tag_def)
  with tier_matches_skill[of m0 t phrase data] have "has_skill m = (t \<noteq> COURSE)"
    by (simp add: has_skill_def)
  with t show ?thesis by simp
qed

lemma rankable_top_matches:
  "rankable (top_matches_of phrase data)
     = (\<not> (\<exists>m\<in>set (top_matches_of phrase data). match_type m = Some COURSE))"
proof -
  let ?tops = "top_matches_of phrase data"
  have e: "list_all has_skill (exacts_of ?tops)"
    using top_match_skill[of _ phrase data] by (auto simp: list_all_iff exacts_of_def)
  have a: "list_all has_skill (ands_of ?tops)"
    using top_match_skill[of _ phrase data] by (auto simp: list_all_iff ands_of_def)
  have o: "list_all has_skill (others_of ?tops) = (\<not> (\<exists>m\<in>set ?tops. match_type m = Some COURSE))"
    using top_match_skill[of _ phrase data] by (auto simp: list_all_iff others_of_def)
  from e a o show ?thesis by (simp add: rankable_def)
qed


section \<open>Facts about the semantic fallback\<close>

lemma semantic_loop_prefix:
  "prefix (semantic_loop n existing rs) (filter (\<lambda>meta. md_empID meta \<notin> existing) rs)"
  by (induction rs) auto

lemma semantic_loop_all:
  "n + 1 < 3 \<Longrightarrow> semantic_loop n existing rs = filter (\<lambda>meta. md_empID meta \<notin> existing) rs"
  by (induction rs) auto

lemma semantic_loop_one:
  "3 \<le> n + 1 \<Longrightarrow> semantic_loop n existing rs = take 1 (filter (\<lambda>meta. md_empID meta \<notin> existing) rs)"
  by (induction rs) auto

lemma semantic_loop_nonempty:
  "filter (\<lambda>meta. md_empID meta \<notin> existing) rs \<noteq> [] \<Longrightarrow> semantic_loop n existing rs \<noteq> []"
  by (induction rs) (auto split: if_splits)

lemma semantic_loop_fill:
  assumes "n < 3" and "n \<noteq> 1 \<or> length (filter (\<lambda>meta. md_empID meta \<notin> existing) rs) \<le> 2"
    and "length rs \<le> 3"
  shows "semantic_loop n existing rs = take (3 - n) (filter (\<lambda>meta. md_empID meta \<notin> existing) rs)"
proof -
  let ?new = "filter (\<lambda>meta. md_empID meta \<notin> existing) rs"
  have len: "length ?new \<le> 3"
    using assms(3) length_filter_le[of "\<lambda>meta. md_empID meta \<notin> existing" rs] by linarith
  from assms(1) consider "n = 0" | "n = 1" | "n = 2" by linarith
  then show ?thesis
  proof cases
    case 1
    with len show ?thesis by (simp add: semantic_loop_all)
  next
    case 2
    with assms(2) show ?thesis by (simp add: semantic_loop_all)
  next
    case 3
    then show ?thesis by (simp add: semantic_loop_one)
  qed
qed

lemma run_query_outcome:
  assumes "run_query data ranking query = Inr out"
  shows "top_matches out = top_matches_of (skill_phrase out) data"
    and "fallback_invoked out = (length (top_matches out) < 3)"
    and "semantic_shown out =
           (if length (top_matches out) < 3
            then semantic_loop (length (top_matches out)) (existing_ids (top_matches out)) (take 3 ranking)
            else [])"
    and "final_matches out = ranker (top_matches out)"
  using assms
  by (auto simp: run_query_def Let_def split: option.splits if_splits)

section \<open>The selection of a list in which every sorted match has a skill\<close>

text \<open>
  The ranker returns a list exactly when every match whose key it computes has a skill,
  and the list is then the best EXACT match by sort key (a least key among the EXACT
  matches), or, when there is no EXACT match, the best AND match, if there is one,
  followed by the first two of the matches that are neither EXACT nor AND, sorted by the
  sort key. This list has at most three entries, all of them matches of the merged list,
  and holds no employee id twice when the merged list holds none twice. A merged list
  without COURSE matches is such a list.
\<close>

lemma selection_when_rankable:
  "(ranker tops = Inr fm) = (rankable tops \<and> fm = spec_final tops)
   \<and> length (spec_final tops) \<le> 3
   \<and> set (spec_final tops) \<subseteq> set tops
   \<and> (\<forall>b\<in>set (spec_best ms). b \<in> set ms \<and> (\<forall>m\<in>set ms. spec_sort_key b \<le> spec_sort_key m))
   \<and> (ms \<noteq> [] \<longrightarrow> length (spec_best ms) = 1)
   \<and> (\<forall>m\<in>set tops. has_skill m \<longrightarrow> skill_sort_key m = Inr (spec_sort_key m))
   \<and> (distinct (map match_id tops) \<longrightarrow> distinct (map match_id (spec_final tops)))
   \<and> (distinct (map empID data) \<longrightarrow>
        distinct (map match_id (spec_final (top_matches_of phrase data))))
   \<and> (\<not> (\<exists>m\<in>set (top_matches_of phrase data). match_type m = Some COURSE) \<longrightarrow>
        ranker (top_matches_of phrase data) = Inr (spec_final (top_matches_of phrase data)))"
proof -
  have a: "(ranker tops = Inr fm) = (rankable tops \<and> fm = spec_final tops)"
    by (auto simp: ranker_eq)
  have b: "\<forall>b\<in>set (spec_best ms). b \<in> set ms \<and> (\<forall>m\<in>set ms. spec_sort_key b \<le> spec_sort_key m)"
    using spec_best_least by blast
  have c: "ms \<noteq> [] \<longrightarrow> length (spec_best ms) = 1"
    using length_spec_best by blast
  have d: "\<forall>m\<in>set tops. has_skill m \<longrightarrow> skill_sort_key m = Inr (spec_sort_key m)"
    by (simp add: skill_sort_key_eq)
  have e: "distinct (map match_id tops) \<longrightarrow> distinct (map match_id (spec_final tops))"
    using distinct_spec_final by blast
  have f: "distinct (map empID data) \<longrightarrow>
        distinct (map match_id (spec_final (top_matches_of phrase data)))"
    using distinct_spec_final distinct_top_matches by blast
  have g: "\<not> (\<exists>m\<in>set (top_matches_of phrase data). match_type m = Some COURSE) \<longrightarrow>
        ranker (top_matches_of phrase data) = Inr (spec_final (top_matches_of phrase data))"
    by (simp add: ranker_eq rankable_top_matches)
  show ?thesis
    by (intro conjI) (rule a length_spec_final set_spec_final b c d e f g)+
qed

lemma selection_when_rankable_example:
  "distinct (map empID pythonistas)
   \<and> map (\<lambda>m. (match_id m, match_type m)) (top_matches_of ''python'' pythonistas)
       = [(''P7'', Some EXACT), (''P8'', Some EXACT), (''P9'', Some PARTIAL),
          (''P11'', Some PARTIAL), (''P10'', Some PARTIAL)]
   \<and> rankable (top_matches_of ''python'' pythonistas)
   \<and> ranker (top_matches_of ''python'' pythonistas)
       = Inr (spec_final (top_matches_of ''python'' pythonistas))
   \<and> map match_id (spec_final (top_matches_of ''python'' pythonistas)) = [''P8'', ''P10'', ''P11'']
   \<and> distinct (map match_id (spec_final (top_matches_of ''python'' pythonistas)))"
proof -
  have h: "distinct (map empID pythonistas)" by code_simp
  have v: "map (\<lambda>m. (match_id m, match_type m)) (top_matches_of ''python'' pythonistas)
       = [(''P7'', Some EXACT), (''P8'', Some EXACT), (''P9'', Some PARTIAL),
          (''P11'', Some PARTIAL), (''P10'', Some PARTIAL)]" by code_simp
  have r: "rankable (top_matches_of ''python'' pythonistas)" by code_simp
  have f: "map match_id (spec_final (top_matches_of ''python'' pythonistas)) = [''P8'', ''P10'', ''P11'']"
    by code_simp
  from h v r f
    selection_when_rankable [of "top_matches_of ''python'' pythonistas"
      "spec_final (top_matches_of ''python'' pythonistas)" "[]" pythonistas "''python''"]
  show ?thesis by blast
qed

section \<open>The sort key of a match without a skill\<close>

text \<open>
  Claim C1 says that a match without a skill gets the default key, so that sorting
  never fails on a course match. In the program \<^verbatim>\<open>match["skill"]\<close> raises
  \<^verbatim>\<open>KeyError\<close> for such a match: every COURSE match of the merged list has no
  sort key, and the selection ends with this error exactly when the merged list holds a
  COURSE match. The lines that print the final list (280-282) expect course matches in it.
\<close>

theorem course_match_raises:
  "(\<forall>m\<in>set (top_matches_of phrase data).
      match_type m = Some COURSE \<longrightarrow> skill_sort_key m = Inl (KeyError ''skill''))
   \<and> (ranker (top_matches_of phrase data) = Inl (KeyError ''skill''))
       = (\<exists>m\<in>set (top_matches_of phrase data). match_type m = Some COURSE)"
proof -
  have a: "skill_sort_key m = Inl (KeyError ''skill'')"
    if "m \<in> set (top_matches_of phrase data)" "match_type m = Some COURSE" for m
    using top_match_skill[OF that(1)] that(2) by (simp add: skill_sort_key_eq)
  have b: "(ranker (top_matches_of phrase data) = Inl (KeyError ''skill''))
       = (\<exists>m\<in>set (top_matches_of phrase data). match_type m = Some COURSE)"
    by (simp add: ranker_eq rankable_top_matches)
  from a b show ?thesis by blast
qed

theorem course_match_raises_witness:
  "map (\<lambda>m. (match_id m, match_type m)) (top_matches_of ''nlp'' [p3]) = [(''P3'', Some COURSE)]
   \<and> ranker (top_matches_of ''nlp'' [p3]) = Inl (KeyError ''skill'')
   \<and> map_sum id final_matches (run_query [p3] [] ''Who knows NLP?'')
       = Inr (Inl (KeyError ''skill''))"
proof -
  have v: "map (\<lambda>m. (match_id m, match_type m)) (top_matches_of ''nlp'' [p3]) = [(''P3'', Some COURSE)]"
    by code_simp
  then have ex: "\<exists>m\<in>set (top_matches_of ''nlp'' [p3]). match_type m = Some COURSE"
    by auto
  have ph: "map_sum id skill_phrase (run_query [p3] [] ''Who knows NLP?'') = Inr ''nlp''"
    by code_simp
  have r: "ranker (top_matches_of ''nlp'' [p3]) = Inl (KeyError ''skill'')"
    using ex course_match_raises [of "''nlp''" "[p3]"] by blast
  have "map_sum id final_matches (run_query [p3] [] ''Who knows NLP?'')
       = Inr (ranker (top_matches_of ''nlp'' [p3]))"
    using ph by (auto simp: run_query_def Let_def split: option.splits if_splits)
  with v r show ?thesis by simp
qed

section \<open>The semantic fallback\<close>

text \<open>
  Claim C2, as the specification states it: every result of the vector index whose
  profile is not yet present is added to the accumulated match list as a semantic
  match. The program only prints such a result; the loop of lines 238-252 appends
  nothing to \<^verbatim>\<open>top_matches\<close>, and the final list is selected from
  \<^verbatim>\<open>top_matches\<close>. Here no tier matches, the fallback reports P3, and both the
  merged list and the final list stay empty.
\<close>

theorem semantic_results_not_added:
  "show_run (run_query [p3] [example_meta ''P3''] ''who knows cobol?'')
     = Inr (True, [''P3''], [], Inr [])"
  by code_simp

text \<open>
  Claim C2, amended: the fallback is called exactly when the symbolic tiers yield fewer
  than three matches. It scans the three nearest results of the vector index in order
  and reports (prints) those whose employee id is not in the merged list, the first of
  them always; it reports as many as fill the result up to three matches when the tiers
  gave no or two matches, or gave one and at most two results are new. The reported
  results are not added to the merged list: the final list is selected from the matches
  of the symbolic tiers alone.
\<close>

theorem semantic_fallback_reports:
  assumes "run_query data ranking query = Inr out"
  shows "fallback_invoked out = (length (top_matches out) < 3)
     \<and> (\<not> fallback_invoked out \<longrightarrow> semantic_shown out = [])
     \<and> (fallback_invoked out \<longrightarrow>
          prefix (semantic_shown out) (new_results (top_matches out) ranking)
          \<and> (new_results (top_matches out) ranking \<noteq> [] \<longrightarrow> semantic_shown out \<noteq> []))
     \<and> (fallback_invoked out
          \<and> (length (top_matches out) \<noteq> 1 \<or> length (new_results (top_matches out) ranking) \<le> 2)
          \<longrightarrow> semantic_shown out
                = take (3 - length (top_matches out)) (new_results (top_matches out) ranking)
              \<and> length (top_matches out) + length (semantic_shown out) \<le> 3)
     \<and> top_matches out = top_matches_of (skill_phrase out) data
     \<and> final_matches out = ranker (top_matches_of (skill_phrase out) data)
     \<and> (\<forall>fm. final_matches out = Inr fm \<longrightarrow> set fm \<subseteq> set (top_matches_of (skill_phrase out) data))"
proof -
  note o = run_query_outcome[OF assms]
  let ?tops = "top_matches out"
  have a: "fallback_invoked out = (length ?tops < 3)" by (rule o(2))
  have b: "\<not> fallback_invoked out \<longrightarrow> semantic_shown out = []"
    by (simp add: o(2) o(3))
  have c: "fallback_invoked out \<longrightarrow>
          prefix (semantic_shown out) (new_results ?tops ranking)
          \<and> (new_results ?tops ranking \<noteq> [] \<longrightarrow> semantic_shown out \<noteq> [])"
    by (simp add: o(2) o(3) new_results_def semantic_loop_prefix semantic_loop_nonempty)
  have d: "fallback_invoked out
          \<and> (length ?tops \<noteq> 1 \<or> length (new_results ?tops ranking) \<le> 2)
          \<longrightarrow> semantic_shown out = take (3 - length ?tops) (new_results ?tops ranking)
              \<and> length ?tops + length (semantic_shown out) \<le> 3"
  proof
    assume h: "fallback_invoked out
          \<and> (length ?tops \<noteq> 1 \<or> length (new_results ?tops ranking) \<le> 2)"
    then have lt: "length ?tops < 3" by (simp add: o(2))
    have "semantic_loop (length ?tops) (existing_ids ?tops) (take 3 ranking)
        = take (3 - length ?tops) (filter (\<lambda>meta. md_empID meta \<notin> existing_ids ?tops) (take 3 ranking))"
      using lt h by (intro semantic_loop_fill) (simp_all add: new_results_def)
    with lt have eq: "semantic_shown out = take (3 - length ?tops) (new_results ?tops ranking)"
      by (simp add: o(3) new_results_def)
    then have "length (semantic_shown out) \<le> 3 - length ?tops" by simp
    with lt eq show "semantic_shown out = take (3 - length ?tops) (new_results ?tops ranking)
              \<and> length ?tops + length (semantic_shown out) \<le> 3" by linarith
  qed
  have e: "top_matches out = top_matches_of (skill_phrase out) data" by (rule o(1))
  have f: "final_matches out = ranker (top_matches_of (skill_phrase out) data)"
    by (simp only: o(4) o(1))
  have g: "\<forall>fm. final_matches out = Inr fm \<longrightarrow> set fm \<subseteq> set (top_matches_of (skill_phrase out) data)"
    using set_spec_final[of "top_matches_of (skill_phrase out) data"]
    by (auto simp: f ranker_eq split: if_splits)
  show ?thesis
    by (intro conjI) (rule a b c d e f g)+
qed

theorem semantic_fallback_reports_witness:
  "show_run (run_query [p1, p2, p4] nlp_ranking ''who knows NLP and Big-Data?'')
     = Inr (True, [''P4''], [''P1'', ''P2''], Inr [''P1'', ''P2''])
   \<and> (\<exists>out. run_query [p1, p2, p4] nlp_ranking ''who knows NLP and Big-Data?'' = Inr out
         \<and> fallback_invoked out \<and> length (top_matches out) = 2
         \<and> semantic_shown out = take 1 (new_results (top_matches out) nlp_ranking)
         \<and> length (top_matches out) + length (semantic_shown out) \<le> 3)"
proof -
  let ?run = "run_query [p1, p2, p4] nlp_ranking ''who knows NLP and Big-Data?''"
  have v: "show_run ?run = Inr (True, [''P4''], [''P1'', ''P2''], Inr [''P1'', ''P2''])"
    by code_simp
  then obtain out where out: "?run = Inr out" and fb: "fallback_invoked out"
    and ids: "map match_id (top_matches out) = [''P1'', ''P2'']"
    by (cases ?run) (auto simp: show_run_def)
  from ids have "length (map match_id (top_matches out)) = 2" by simp
  then have len: "length (top_matches out) = 2" by simp
  from semantic_fallback_reports [OF out] fb len
  have "semantic_shown out = take (3 - length (top_matches out)) (new_results (top_matches out) nlp_ranking)
      \<and> length (top_matches out) + length (semantic_shown out) \<le> 3"
    by simp
  with len have "semantic_shown out = take 1 (new_results (top_matches out) nlp_ranking)
      \<and> length (top_matches out) + length (semantic_shown out) \<le> 3"
    by simp
  with v out fb len show ?thesis by blast
qed

section \<open>Text normalization\<close>

text \<open>
  Claim C3, as the specification states it: \<open>normalize(normalize(x)) == normalize(x)\<close>
  for every string. The program trims before it removes hyphens and underscores, so the
  removal can uncover a blank at an end: \<open>normalize("- a")\<close> is \<open>" a"\<close>, and
  normalizing that gives \<open>"a"\<close>.
\<close>

theorem normalize_text_not_idempotent:
  "normalize_text (normalize_text ''- a'') \<noteq> normalize_text ''- a''"
  by code_simp

text \<open>
  Claim C3, amended: a second normalization only trims the first one's result, so
  \<open>normalize(normalize(x)) == normalize(x)\<close> holds exactly for the strings whose
  normalized form neither begins nor ends with whitespace; for every string the
  normalization is stable from its second application on; and \<open>normalize\<close> maps both
  \<open>"Big-Data"\<close> and \<open>"big_data"\<close> to \<open>"bigdata"\<close>.
\<close>

theorem normalize_text_idempotent_iff:
  "(normalize_text (normalize_text x) = normalize_text x) = no_outer_space (normalize_text x)
   \<and> normalize_text (normalize_text x) = strip (normalize_text x)
   \<and> normalize_text (normalize_text (normalize_text x)) = normalize_text (normalize_text x)
   \<and> normalize_text ''Big-Data'' = ''bigdata''
   \<and> normalize_text ''big_data'' = ''bigdata''"
proof -
  have twice: "normalize_text (normalize_text y) = strip (normalize_text y)" for y
    by (rule normalize_text_twice)
  have "normalize_text (normalize_text (normalize_text x)) = strip (normalize_text (normalize_text x))"
    by (rule twice)
  also have "\<dots> = strip (strip (normalize_text x))" by (simp only: twice)
  also have "\<dots> = strip (normalize_text x)" by (rule strip_idem)
  also have "\<dots> = normalize_text (normalize_text x)" by (simp only: twice)
  finally have thrice:
    "normalize_text (normalize_text (normalize_text x)) = normalize_text (normalize_text x)" .
  have iff: "(normalize_text (normalize_text x) = normalize_text x) = no_outer_space (normalize_text x)"
    by (simp only: twice strip_fixed_iff)
  have ex1: "normalize_text ''Big-Data'' = ''bigdata''" by code_simp
  have ex2: "normalize_text ''big_data'' = ''bigdata''" by code_simp
  from iff twice thrice ex1 ex2 show ?thesis by blast
qed

theorem normalize_text_idempotent_witness:
  "no_outer_space (normalize_text ''Big-Data'')
   \<and> normalize_text (normalize_text ''Big-Data'') = normalize_text ''Big-Data''"
proof -
  have h: "no_outer_space (normalize_text ''Big-Data'')" by code_simp
  with normalize_text_idempotent_iff [of "''Big-Data''"] show ?thesis by blast
qed

section \<open>One match per profile, tagged with the first tier that matches\<close>

text \<open>
  Claim C4: for every phrase and every list of profiles with pairwise distinct employee
  ids, the list merged from the five symbolic tiers holds every id at most once; each
  of its matches is tagged with the tier of highest priority
  (EXACT, AND, OR, PARTIAL, COURSE in this order) that its profile passes; every profile
  that passes some tier is in the list; and a profile with a skill whose normalized name
  equals the normalized phrase is in the list tagged EXACT, and with no other tag.
\<close>

theorem tier_precedence:
  assumes "distinct (map empID data)"
  shows "distinct (map match_id (top_matches_of phrase data))
     \<and> (\<forall>m\<in>set (top_matches_of phrase data).
          m_profile m \<in> set data
          \<and> (\<exists>t. match_type m = Some t \<and> tier_hit t phrase (m_profile m)
                \<and> (\<forall>t'. tier_rank t' < tier_rank t \<longrightarrow> \<not> tier_hit t' phrase (m_profile m))))
     \<and> (\<forall>p\<in>set data. \<forall>t. tier_hit t phrase p \<longrightarrow>
          (\<exists>m\<in>set (top_matches_of phrase data). m_profile m = p))
     \<and> (\<forall>p\<in>set data. tier_hit EXACT phrase p \<longrightarrow>
          (\<exists>m\<in>set (top_matches_of phrase data). m_profile m = p \<and> match_type m = Some EXACT)
          \<and> (\<forall>m\<in>set (top_matches_of phrase data). m_profile m = p \<longrightarrow> match_type m = Some EXACT))"
proof -
  have a: "distinct (map match_id (top_matches_of phrase data))"
    using assms by (rule distinct_top_matches)
  have b: "m_profile m \<in> set data
          \<and> (\<exists>t. match_type m = Some t \<and> tier_hit t phrase (m_profile m)
                \<and> (\<forall>t'. tier_rank t' < tier_rank t \<longrightarrow> \<not> tier_hit t' phrase (m_profile m)))"
    if "m \<in> set (top_matches_of phrase data)" for m
    using top_match_tier[OF that] by blast
  have c: "\<exists>m\<in>set (top_matches_of phrase data). m_profile m = p"
    if "p \<in> set data" "tier_hit t phrase p" for p t
    using assms that by (rule hit_profile_in_top)
  have e: "match_type m = Some EXACT"
    if "tier_hit EXACT phrase p" "m \<in> set (top_matches_of phrase data)" "m_profile m = p" for m p
  proof -
    from b[OF that(2)] obtain t where t: "match_type m = Some t"
      and low: "\<forall>t'. tier_rank t' < tier_rank t \<longrightarrow> \<not> tier_hit t' phrase (m_profile m)" by blast
    from low that(1,3) have "\<not> tier_rank EXACT < tier_rank t" by blast
    then have "tier_rank t = 0" by (simp add: tier_rank_def)
    with t show ?thesis by (simp add: tier_rank_0)
  qed
  have d: "\<exists>m\<in>set (top_matches_of phrase data). m_profile m = p \<and> match_type m = Some EXACT"
    if "p \<in> set data" "tier_hit EXACT phrase p" for p
    using c[OF that] e[OF that(2)] by blast
  from a b c d e show ?thesis by blast
qed

theorem tier_precedence_witness:
  "distinct (map empID team)
   \<and> map (\<lambda>m. (match_id m, match_type m)) (top_matches_of ''big data'' team)
       = [(''P4'', Some EXACT)]
   \<and> tier_hit EXACT ''big data'' p4 \<and> tier_hit PARTIAL ''big data'' p4
   \<and> distinct (map match_id (top_matches_of ''big data'' team))"
proof -
  have h: "distinct (map empID team)" by code_simp
  have v: "map (\<lambda>m. (match_id m, match_type m)) (top_matches_of ''big data'' team)
       = [(''P4'', Some EXACT)]" by code_simp
  have t: "tier_hit EXACT ''big data'' p4 \<and> tier_hit PARTIAL ''big data'' p4" by code_simp
  from h v t tier_precedence [OF h, of "''big data''"] show ?thesis by blast
qed

section \<open>The final selection\<close>

text \<open>
  Claim C5 says that the final list is the best EXACT (or else the best AND) match
  followed by the first two of the other matches, COURSE matches among them, sorted by the
  sort key. In the program the sort of line 264 computes the key of every match that is
  neither EXACT nor AND, and \<^verbatim>\<open>match["skill"]\<close> raises \<^verbatim>\<open>KeyError\<close> for a match
  without a skill: whenever the merged list holds a COURSE match the selection ends with
  this error and the run has no final list, where the claim's selection gives one (for
  the phrase \<open>nlp\<close> and the profiles P2 and P3 it gives P2, P3). This is so even when
  the COURSE match would not be among the first two.
\<close>

theorem final_selection_raises:
  "((\<exists>m\<in>set tops. match_type m \<noteq> Some EXACT \<and> match_type m \<noteq> Some AND \<and> \<not> has_skill m)
      \<longrightarrow> ranker tops = Inl (KeyError ''skill''))
   \<and> ((\<exists>m\<in>set (top_matches_of phrase data). match_type m = Some COURSE)
      \<longrightarrow> ranker (top_matches_of phrase data) = Inl (KeyError ''skill''))
   \<and> (run_query data ranking query = Inr out
        \<and> (\<exists>m\<in>set (top_matches out). match_type m = Some COURSE)
      \<longrightarrow> final_matches out = Inl (KeyError ''skill''))"
proof -
  have a: "ranker tops = Inl (KeyError ''skill'')"
    if "\<exists>m\<in>set tops. match_type m \<noteq> Some EXACT \<and> match_type m \<noteq> Some AND \<and> \<not> has_skill m"
  proof -
    from that have "\<not> list_all has_skill (others_of tops)"
      by (auto simp: list_all_iff others_of_def)
    then have "\<not> rankable tops" by (simp add: rankable_def)
    then show ?thesis by (simp add: ranker_eq)
  qed
  have b: "ranker (top_matches_of phrase' data') = Inl (KeyError ''skill'')"
    if "\<exists>m\<in>set (top_matches_of phrase' data'). match_type m = Some COURSE" for phrase' data'
    using that by (simp add: ranker_eq rankable_top_matches)
  have c: "final_matches out = Inl (KeyError ''skill'')"
    if "run_query data ranking query = Inr out
        \<and> (\<exists>m\<in>set (top_matches out). match_type m = Some COURSE)"
  proof -
    from that have r: "run_query data ranking query = Inr out" by simp
    from that run_query_outcome(1)[OF r]
    have "\<exists>m\<in>set (top_matches_of (skill_phrase out) data). match_type m = Some COURSE" by simp
    then have "ranker (top_matches_of (skill_phrase out) data) = Inl (KeyError ''skill'')"
      by (rule b)
    with run_query_outcome(1)[OF r] run_query_outcome(4)[OF r] show ?thesis by simp
  qed
  from a b c show ?thesis by blast
qed

theorem final_selection_raises_witness:
  "map (\<lambda>m. (match_id m, match_type m)) (top_matches_of ''nlp'' [p2, p3])
     = [(''P2'', Some PARTIAL), (''P3'', Some COURSE)]
   \<and> map match_id (spec_final (top_matches_of ''nlp'' [p2, p3])) = [''P2'', ''P3'']
   \<and> ranker (top_matches_of ''nlp'' [p2, p3]) = Inl (KeyError ''skill'')
   \<and> (\<exists>out. run_query [p2, p3] [] ''who knows nlp?'' = Inr out
         \<and> skill_phrase out = ''nlp''
         \<and> final_matches out = Inl (KeyError ''skill''))
   \<and> map (\<lambda>m. (match_id m, match_type m)) (top_matches_of ''python'' (pythonistas @ [py_course]))
       = [(''P7'', Some EXACT), (''P8'', Some EXACT), (''P9'', Some PARTIAL),
          (''P11'', Some PARTIAL), (''P10'', Some PARTIAL), (''P12'', Some COURSE)]
   \<and> map match_id (spec_final (top_matches_of ''python'' (pythonistas @ [py_course])))
       = [''P8'', ''P10'', ''P11'']
   \<and> ranker (top_matches_of ''python'' (pythonistas @ [py_course])) = Inl (KeyError ''skill'')"
proof -
  have v: "map (\<lambda>m. (match_id m, match_type m)) (top_matches_of ''nlp'' [p2, p3])
     = [(''P2'', Some PARTIAL), (''P3'', Some COURSE)]" by code_simp
  then have "map match_type (top_matches_of ''nlp'' [p2, p3]) = [Some PARTIAL, Some COURSE]"
    by (simp add: map_eq_Cons_conv) auto
  then have "Some COURSE \<in> set (map match_type (top_matches_of ''nlp'' [p2, p3]))" by simp
  then have ex: "\<exists>m\<in>set (top_matches_of ''nlp'' [p2, p3]). match_type m = Some COURSE"
    by auto
  have s: "map match_id (spec_final (top_matches_of ''nlp'' [p2, p3])) = [''P2'', ''P3'']"
    by code_simp
  have "map_sum id skill_phrase (run_query [p2, p3] [] ''who knows nlp?'') = Inr ''nlp''"
    by code_simp
  then obtain out where out: "run_query [p2, p3] [] ''who knows nlp?'' = Inr out"
    and ph: "skill_phrase out = ''nlp''"
    by (cases "run_query [p2, p3] [] ''who knows nlp?''") auto
  from run_query_outcome(1)[OF out] ph ex
  have exo: "\<exists>m\<in>set (top_matches out). match_type m = Some COURSE" by simp
  from out exo
    final_selection_raises [where data = "[p2, p3]" and ranking = "[]"
      and query = "''who knows nlp?''" and out = out]
  have fm: "final_matches out = Inl (KeyError ''skill'')" by blast
  from out ph fm have run: "\<exists>out. run_query [p2, p3] [] ''who knows nlp?'' = Inr out
         \<and> skill_phrase out = ''nlp''
         \<and> final_matches out = Inl (KeyError ''skill'')" by blast
  have v2: "map (\<lambda>m. (match_id m, match_type m)) (top_matches_of ''python'' (pythonistas @ [py_course]))
       = [(''P7'', Some EXACT), (''P8'', Some EXACT), (''P9'', Some PARTIAL),
          (''P11'', Some PARTIAL), (''P10'', Some PARTIAL), (''P12'', Some COURSE)]" by code_simp
  then have "map match_type (top_matches_of ''python'' (pythonistas @ [py_course]))
       = [Some EXACT, Some EXACT, Some PARTIAL, Some PARTIAL, Some PARTIAL, Some COURSE]"
    by (simp add: map_eq_Cons_conv) auto
  then have "Some COURSE \<in> set (map match_type (top_matches_of ''python'' (pythonistas @ [py_course])))"
    by simp
  then have ex2: "\<exists>m\<in>set (top_matches_of ''python'' (pythonistas @ [py_course])). match_type m = Some COURSE"
    by auto
  have s2: "map match_id (spec_final (top_matches_of ''python'' (pythonistas @ [py_course])))
       = [''P8'', ''P10'', ''P11'']" by code_simp
  from v ex s run v2 ex2 s2
    final_selection_raises [of "top_matches_of ''nlp'' [p2, p3]" "''nlp''" "[p2, p3]"]
    final_selection_raises [of "top_matches_of ''python'' (pythonistas @ [py_course])"
       "''python''" "pythonistas @ [py_course]"]
  show ?thesis by blast
qed

section \<open>The sort key\<close>

text \<open>
  Claim C6: for a match that carries a skill the sort key is the tuple
  (-experienceMonths, -1 if isCurrent is YES else 0, 1 if isPrimary is YES else 0,
  -proficiencyRank), with EXPERT=4, PROFICIENT=3, COMPETENT=2, BEGINNER=1 and 0 for an
  absent proficiency; the flags are compared after \<^verbatim>\<open>.upper()\<close>. Tuples are
  compared from the left, so more experience sorts first whatever the other fields are,
  and at equal experience and current flag a non-primary skill sorts before a primary one.
\<close>

theorem skill_sort_key_tuple:
  "skill_sort_key (skill_match p s) =
     Inr (- experienceProjectMths s, current_key s, primary_key s, - proficiency_rank s)
   \<and> (upper (isCurrent s) = ''YES'' \<longrightarrow> current_key s = - 1)
   \<and> (upper (isCurrent s) \<noteq> ''YES'' \<longrightarrow> current_key s = 0)
   \<and> (upper (isPrimary s) = ''YES'' \<longrightarrow> primary_key s = 1)
   \<and> (upper (isPrimary s) \<noteq> ''YES'' \<longrightarrow> primary_key s = 0)
   \<and> proficiency_order ''EXPERT'' = 4 \<and> proficiency_order ''PROFICIENT'' = 3
   \<and> proficiency_order ''COMPETENT'' = 2 \<and> proficiency_order ''BEGINNER'' = 1
   \<and> proficiency_order [] = 0
   \<and> (experienceProjectMths s' < experienceProjectMths s \<longrightarrow>
        sorts_before (skill_match p s) (skill_match p' s')
        \<and> py_sorted skill_sort_key [skill_match p' s', skill_match p s]
            = Inr [skill_match p s, skill_match p' s'])
   \<and> (experienceProjectMths s' = experienceProjectMths s \<and> current_key s' = current_key s
        \<and> primary_key s = 0 \<and> primary_key s' = 1 \<longrightarrow>
        sorts_before (skill_match p s) (skill_match p' s')
        \<and> py_sorted skill_sort_key [skill_match p' s', skill_match p s]
            = Inr [skill_match p s, skill_match p' s'])"
proof -
  have key: "skill_sort_key (skill_match q t) =
      Inr (- experienceProjectMths t, current_key t, primary_key t, - proficiency_rank t)" for q t
    by (simp add: skill_sort_key_def skill_match_def current_key_def primary_key_def proficiency_rank_def)
  have flags: "(upper (isCurrent s) = ''YES'' \<longrightarrow> current_key s = - 1)
     \<and> (upper (isCurrent s) \<noteq> ''YES'' \<longrightarrow> current_key s = 0)
     \<and> (upper (isPrimary s) = ''YES'' \<longrightarrow> primary_key s = 1)
     \<and> (upper (isPrimary s) \<noteq> ''YES'' \<longrightarrow> primary_key s = 0)"
    by (simp add: current_key_def primary_key_def)
  have ranks: "proficiency_order ''EXPERT'' = 4 \<and> proficiency_order ''PROFICIENT'' = 3
   \<and> proficiency_order ''COMPETENT'' = 2 \<and> proficiency_order ''BEGINNER'' = 1
   \<and> proficiency_order [] = 0"
    by (simp add: proficiency_order_def)
  have exp: "sorts_before (skill_match p s) (skill_match p' s')"
    if "experienceProjectMths s' < experienceProjectMths s"
    using that by (simp add: sorts_before_def key)
  have prim: "sorts_before (skill_match p s) (skill_match p' s')"
    if "experienceProjectMths s' = experienceProjectMths s \<and> current_key s' = current_key s
        \<and> primary_key s = 0 \<and> primary_key s' = 1"
    using that by (simp add: sorts_before_def key)
  from key[of p s] flags ranks exp prim py_sorted_pair(1) show ?thesis by blast
qed

theorem skill_sort_key_tuple_witness:
  "experienceProjectMths python12 < experienceProjectMths python36
   \<and> skill_sort_key (skill_match p1 python36) = Inr (- 36, 0, 0, - 2)
   \<and> skill_sort_key (skill_match p2 python12) = Inr (- 12, - 1, 0, - 2)
   \<and> py_sorted skill_sort_key [skill_match p2 python12, skill_match p1 python36]
        = Inr [skill_match p1 python36, skill_match p2 python12]
   \<and> primary_key python12 = 0 \<and> primary_key python12_primary = 1
   \<and> sorts_before (skill_match p1 python12) (skill_match p2 python12_primary)"
proof -
  have h1: "experienceProjectMths python12 < experienceProjectMths python36"
    by (simp add: python12_def python36_def example_skill_def)
  have k1: "skill_sort_key (skill_match p1 python36) = Inr (- 36, 0, 0, - 2)" by code_simp
  have k2: "skill_sort_key (skill_match p2 python12) = Inr (- 12, - 1, 0, - 2)" by code_simp
  have h2: "experienceProjectMths python12_primary = experienceProjectMths python12
      \<and> current_key python12_primary = current_key python12
      \<and> primary_key python12 = 0 \<and> primary_key python12_primary = 1"
    by code_simp
  from h1 k1 k2 h2
    skill_sort_key_tuple [where s = python36 and s' = python12 and p = p1 and p' = p2]
    skill_sort_key_tuple [where s = python12 and s' = python12_primary and p = p1 and p' = p2]
  show ?thesis by blast
qed

section \<open>The profile normalizer\<close>

text \<open>
  Claim C7, as the specification states it: only skill entries with an empty name are
  discarded before the deduplication. The program also drops an entry whose name is not
  empty but normalizes to the empty string, such as \<open>"-"\<close>
  (\<^verbatim>\<open>if name and name not in seen\<close> tests the normalized name).
\<close>

theorem profile_normalizer_skills_counterexample:
  "skills_struct (build_profile (raw_example [raw_skill_named ''-''] [])) = []
   \<and> spec_build_skills (raw_example [raw_skill_named ''-''] []) = [skill_entry (raw_skill_named ''-'')]"
  by code_simp

text \<open>
  Claim C7, amended: the skills of a profile are the raw entries whose normalized name
  is not empty (an empty name is such a name), deduplicated by normalized name with the
  first occurrence in source order kept; courses and certifications are the raw entries
  with a non-empty name, all of them, in order, without deduplication.
\<close>

theorem profile_normalizer:
  "skills_struct (build_profile emp) =
     dedup_first norm_name (filter (\<lambda>s. norm_name s \<noteq> []) (map skill_entry (re_skills emp)))
   \<and> distinct (map norm_name (skills_struct (build_profile emp)))
   \<and> subseq (skills_struct (build_profile emp)) (map skill_entry (re_skills emp))
   \<and> (\<forall>s\<in>set (skills_struct (build_profile emp)).
         norm_name s \<noteq> []
         \<and> find (\<lambda>t. norm_name t = norm_name s) (map skill_entry (re_skills emp)) = Some s)
   \<and> set (map norm_name (skills_struct (build_profile emp)))
       = set (map norm_name (map skill_entry (re_skills emp))) - {[]}
   \<and> courses_struct (build_profile emp)
       = filter (\<lambda>c. course_name c \<noteq> []) (map course_entry (re_courses emp))
   \<and> certs_struct (build_profile emp)
       = filter (\<lambda>c. cert_name c \<noteq> []) (map cert_entry (re_certifications emp))"
proof -
  let ?entries = "map skill_entry (re_skills emp)"
  let ?kept = "filter (\<lambda>s. norm_name s \<noteq> []) ?entries"
  let ?out = "skills_struct (build_profile emp)"
  have sk: "?out = dedup_first norm_name ?kept"
    by (simp add: build_profile_def build_skills_eq)
  have a: "distinct (map norm_name ?out)"
    unfolding sk by (rule distinct_dedup_first)
  have "subseq (dedup_first norm_name ?kept) ?kept" by (rule subseq_dedup_first)
  moreover have "subseq ?kept ?entries" by (rule subseq_filter_left)
  ultimately have b: "subseq ?out ?entries"
    unfolding sk using subseq_order.order_trans by blast
  have c: "\<forall>s\<in>set ?out. norm_name s \<noteq> []
      \<and> find (\<lambda>t. norm_name t = norm_name s) ?entries = Some s"
  proof
    fix s assume "s \<in> set ?out"
    then have mem: "s \<in> set (dedup_first norm_name ?kept)" by (simp only: sk)
    with set_dedup_first[of norm_name ?kept] have "s \<in> set ?kept" by blast
    then have ne: "norm_name s \<noteq> []" by simp
    from mem have "find (\<lambda>t. norm_name t = norm_name s) ?kept = Some s"
      by (rule dedup_first_is_first)
    moreover from ne have "find (\<lambda>t. norm_name t = norm_name s) ?kept
        = find (\<lambda>t. norm_name t = norm_name s) ?entries"
      by (intro find_filter_implied) simp
    ultimately show "norm_name s \<noteq> []
      \<and> find (\<lambda>t. norm_name t = norm_name s) ?entries = Some s"
      using ne by simp
  qed
  have "set (map norm_name (dedup_first norm_name ?kept)) = set (map norm_name ?kept)"
    by (rule keys_dedup_first)
  also have "\<dots> = set (map norm_name ?entries) - {[]}" by auto
  finally have d: "set (map norm_name ?out) = set (map norm_name ?entries) - {[]}"
    by (simp only: sk)
  have e: "courses_struct (build_profile emp)
       = filter (\<lambda>c. course_name c \<noteq> []) (map course_entry (re_courses emp))"
  proof -
    have "truthy (rc_courseName r) = (course_name (course_entry r) \<noteq> [])" for r
      by (cases "rc_courseName r") (simp_all add: truthy_def course_entry_def py_get_def)
    then show ?thesis
      by (simp add: build_profile_def build_courses_def filter_map comp_def)
  qed
  have f: "certs_struct (build_profile emp)
       = filter (\<lambda>c. cert_name c \<noteq> []) (map cert_entry (re_certifications emp))"
  proof -
    have "truthy (rt_certificationName r) = (cert_name (cert_entry r) \<noteq> [])" for r
      by (cases "rt_certificationName r") (simp_all add: truthy_def cert_entry_def py_get_def)
    then show ?thesis
      by (simp add: build_profile_def build_certs_def filter_map comp_def)
  qed
  show ?thesis
    by (intro conjI) (rule sk a b c d e f)+
qed

theorem profile_normalizer_witness:
  "map skill_name (skills_struct (build_profile asha)) = [''Big-Data'', ''NLP'']
   \<and> map course_name (courses_struct (build_profile asha)) = [''Statistics'', ''Statistics'']
   \<and> skill_entry (raw_skill_named ''NLP'') \<in> set (skills_struct (build_profile asha))
   \<and> find (\<lambda>t. norm_name t = norm_name (skill_entry (raw_skill_named ''NLP'')))
        (map skill_entry (re_skills asha)) = Some (skill_entry (raw_skill_named ''NLP''))"
proof -
  have a: "map skill_name (skills_struct (build_profile asha)) = [''Big-Data'', ''NLP'']"
    by code_simp
  have b: "map course_name (courses_struct (build_profile asha)) = [''Statistics'', ''Statistics'']"
    by code_simp
  have c: "skill_entry (raw_skill_named ''NLP'') \<in> set (skills_struct (build_profile asha))"
    by code_simp
  from a b c profile_normalizer [of asha] show ?thesis by blast
qed

section \<open>The conjunctive and the disjunctive tier\<close>

text \<open>
  Claim C8: the matches tagged AND and OR in the merged list are those of
  \<open>find_and_matches\<close> and \<open>find_or_matches\<close> (less the ids already present) when the
  phrase has at least two parts, and there are none otherwise. \<open>find_and_matches\<close>
  records a match for a profile exactly when one of its skills has a normalized name
  that contains every part, and the match carries the first such skill;
  \<open>find_or_matches\<close> does the same for a name that contains at least one part. For the
  parts \<open>["nlp", "bigdata"]\<close> the skill \<open>"NLP-BigData-Engineering"\<close> matches AND, and
  a profile with only \<open>"NLP Basics"\<close> matches OR but not AND.
\<close>

theorem and_or_tiers:
  "filter (\<lambda>m. match_type m = Some AND) (top_matches_of phrase data) =
     (if 2 \<le> length (skill_parts_of phrase)
      then filter (\<lambda>m. match_id m \<notin> existing_ids (find_skill_matches phrase data False))
             (tag AND (find_and_matches (skill_parts_of phrase) data))
      else [])
   \<and> filter (\<lambda>m. match_type m = Some OR) (top_matches_of phrase data) =
     (if 2 \<le> length (skill_parts_of phrase)
      then filter (\<lambda>m. match_id m \<notin> existing_ids (find_skill_matches phrase data False)
                                   \<union> existing_ids (find_and_matches (skill_parts_of phrase) data))
             (tag OR (find_or_matches (skill_parts_of phrase) data))
      else [])
   \<and> map m_profile (find_and_matches parts data)
       = filter (\<lambda>p. \<exists>s\<in>set (skills_struct p). and_test parts s) data
   \<and> (\<forall>m\<in>set (find_and_matches parts data).
         m_skill m = find (and_test parts) (skills_struct (m_profile m))
         \<and> (\<exists>s\<in>set (skills_struct (m_profile m)). m_skill m = Some s \<and> and_test parts s))
   \<and> map m_profile (find_or_matches parts data)
       = filter (\<lambda>p. \<exists>s\<in>set (skills_struct p). or_test parts s) data
   \<and> (\<forall>m\<in>set (find_or_matches parts data).
         m_skill m = find (or_test parts) (skills_struct (m_profile m))
         \<and> (\<exists>s\<in>set (skills_struct (m_profile m)). m_skill m = Some s \<and> or_test parts s))
   \<and> map m_profile (find_and_matches nlp_bigdata [p1, p2]) = [p1]
   \<and> map m_profile (find_or_matches nlp_bigdata [p1, p2]) = [p1, p2]"
proof -
  have two: "(2 \<le> n) = (1 < n)" for n :: nat by auto
  have a: "filter (\<lambda>m. match_type m = Some AND) (top_matches_of phrase data) =
     (if 2 \<le> length (skill_parts_of phrase)
      then filter (\<lambda>m. match_id m \<notin> existing_ids (find_skill_matches phrase data False))
             (tag AND (find_and_matches (skill_parts_of phrase) data))
      else [])"
    by (simp add: and_tier_of_top tagged_def tier_matches_def existing_ids_tag two tag_Nil)
  have b: "filter (\<lambda>m. match_type m = Some OR) (top_matches_of phrase data) =
     (if 2 \<le> length (skill_parts_of phrase)
      then filter (\<lambda>m. match_id m \<notin> existing_ids (find_skill_matches phrase data False)
                                   \<union> existing_ids (find_and_matches (skill_parts_of phrase) data))
             (tag OR (find_or_matches (skill_parts_of phrase) data))
      else [])"
    by (simp add: or_tier_of_top tagged_def tier_matches_def existing_ids_tag two tag_Nil)
  have c: "map m_profile (find_and_matches parts data)
       = filter (\<lambda>p. \<exists>s\<in>set (skills_struct p). and_test parts s) data"
    unfolding find_and_matches_alt
    by (rule scan_profiles[where mk = skill_match, OF m_profile_skill_match])
  have d: "m_skill m = find (and_test parts) (skills_struct (m_profile m))
         \<and> (\<exists>s\<in>set (skills_struct (m_profile m)). m_skill m = Some s \<and> and_test parts s)"
    if "m \<in> set (find_and_matches parts data)" for m
    using that first_skill_members unfolding find_and_matches_alt by blast
  have e: "map m_profile (find_or_matches parts data)
       = filter (\<lambda>p. \<exists>s\<in>set (skills_struct p). or_test parts s) data"
    unfolding find_or_matches_alt
    by (rule scan_profiles[where mk = skill_match, OF m_profile_skill_match])
  have f: "m_skill m = find (or_test parts) (skills_struct (m_profile m))
         \<and> (\<exists>s\<in>set (skills_struct (m_profile m)). m_skill m = Some s \<and> or_test parts s)"
    if "m \<in> set (find_or_matches parts data)" for m
    using that first_skill_members unfolding find_or_matches_alt by blast
  have g: "map m_profile (find_and_matches nlp_bigdata [p1, p2]) = [p1]" by code_simp
  have h: "map m_profile (find_or_matches nlp_bigdata [p1, p2]) = [p1, p2]" by code_simp
  from a b c d e f g h show ?thesis by blast
qed

theorem and_or_tiers_witness:
  "skill_parts_of ''nlp|big-data'' = nlp_bigdata
   \<and> map (\<lambda>m. (match_id m, match_type m)) (top_matches_of ''nlp|big-data'' [p1, p2])
       = [(''P1'', Some AND), (''P2'', Some OR)]
   \<and> filter (\<lambda>m. match_type m = Some AND) (top_matches_of ''nlp|big-data'' [p1, p2])
       = tag AND (find_and_matches nlp_bigdata [p1, p2])
   \<and> filter (\<lambda>m. match_type m = Some AND) (top_matches_of ''nlp'' [p1, p2]) = []
   \<and> filter (\<lambda>m. match_type m = Some OR) (top_matches_of ''nlp'' [p1, p2]) = []"
proof -
  have p: "skill_parts_of ''nlp|big-data'' = nlp_bigdata" by code_simp
  have l2: "2 \<le> length (skill_parts_of ''nlp|big-data'')" by code_simp
  have l1: "\<not> 2 \<le> length (skill_parts_of ''nlp'')" by code_simp
  have v: "map (\<lambda>m. (match_id m, match_type m)) (top_matches_of ''nlp|big-data'' [p1, p2])
       = [(''P1'', Some AND), (''P2'', Some OR)]" by code_simp
  have x: "filter (\<lambda>m. match_id m \<notin> existing_ids (find_skill_matches ''nlp|big-data'' [p1, p2] False))
             (tag AND (find_and_matches nlp_bigdata [p1, p2])) = tag AND (find_and_matches nlp_bigdata [p1, p2])"
    by code_simp
  from p l2 l1 v x and_or_tiers [of "''nlp|big-data''" "[p1, p2]"]
    and_or_tiers [of "''nlp''" "[p1, p2]"]
  show ?thesis by simp
qed

section \<open>A query without a phrase\<close>

text \<open>
  Claim C9: when no skill phrase can be extracted from the query (the pattern does not
  match, or its group is blank), the run ends with the message that no phrase could be
  extracted, whatever the profiles and the vector index hold: no strategy runs, the
  fallback is not called and there is no result. A query that does not contain
  \<open>"who knows "\<close> (in any case) is such a query. Every other query is matched.
\<close>

theorem no_phrase_no_matching:
  "((extract_skill_phrase query = None \<or> extract_skill_phrase query = Some []) \<longrightarrow>
      (\<forall>structured_data ranking. run_query structured_data ranking query = Inl no_phrase_message))
   \<and> (\<not> sublist ''who knows '' (lower query) \<longrightarrow> extract_skill_phrase query = None)
   \<and> ((\<exists>out. run_query structured_data ranking query = Inr out) =
        (\<exists>phrase. extract_skill_phrase query = Some phrase \<and> phrase \<noteq> []))"
proof -
  have a: "run_query d r query = Inl no_phrase_message"
    if "extract_skill_phrase query = None \<or> extract_skill_phrase query = Some []" for d r
    using that by (auto simp: run_query_def no_phrase_message_def)
  have b: "extract_skill_phrase query = None" if "\<not> sublist ''who knows '' (lower query)"
    using that by (simp add: extract_skill_phrase_def re_search_no_occurrence)
  have c: "(\<exists>out. run_query structured_data ranking query = Inr out) =
        (\<exists>phrase. extract_skill_phrase query = Some phrase \<and> phrase \<noteq> [])"
    by (cases "extract_skill_phrase query") (auto simp: run_query_def Let_def)
  from a b c show ?thesis by blast
qed

theorem no_phrase_no_matching_witness:
  "extract_skill_phrase ''find me a python developer'' = None
   \<and> extract_skill_phrase ''Who knows   ?'' = Some []
   \<and> run_query [] [] ''find me a python developer'' = Inl no_phrase_message
   \<and> run_query [] [] ''Who knows   ?'' = Inl no_phrase_message"
proof -
  have h1: "extract_skill_phrase ''find me a python developer'' = None" by code_simp
  have h2: "extract_skill_phrase ''Who knows   ?'' = Some []" by code_simp
  from h1 h2 no_phrase_no_matching [of "''find me a python developer''"]
    no_phrase_no_matching [of "''Who knows   ?''"]
  show ?thesis by blast
qed

section \<open>The exact tier and a phrase of several parts\<close>

text \<open>
  Claim C10: normalization keeps the delimiter. For a phrase that contains
  \<open>|\<close> (so it has two or more parts) the normalized phrase contains it too, the exact
  tier matches a profile exactly when one of its skills has a normalized name equal to
  the whole normalized phrase, and no part equals the normalized phrase: a match tagged
  EXACT never rests on a skill whose normalized name is one of the parts, and a profile
  all of whose skill names are parts is not matched by the exact tier.
\<close>

theorem exact_tier_whole_phrase:
  assumes "CHR ''|'' \<in> set phrase"
  shows "2 \<le> length (skill_parts_of phrase)
     \<and> CHR ''|'' \<in> set (normalize_text phrase)
     \<and> map m_profile (find_skill_matches phrase data False)
         = filter (\<lambda>p. \<exists>s\<in>set (skills_struct p).
                     normalize_text (skill_name s) = normalize_text phrase) data
     \<and> (\<forall>part\<in>set (skill_parts_of phrase). part \<noteq> normalize_text phrase)
     \<and> (\<forall>m\<in>set (top_matches_of phrase data). match_type m = Some EXACT \<longrightarrow>
          (\<exists>s. m_skill m = Some s \<and> normalize_text (skill_name s) = normalize_text phrase
               \<and> normalize_text (skill_name s) \<notin> set (skill_parts_of phrase)))
     \<and> (\<forall>p. (\<forall>s\<in>set (skills_struct p). normalize_text (skill_name s) \<in> set (skill_parts_of phrase))
          \<longrightarrow> p \<notin> set (map m_profile (find_skill_matches phrase data False)))"
proof -
  have a: "2 \<le> length (skill_parts_of phrase)"
    using assms by (simp add: skill_parts_of_def split_on_two)
  have b: "CHR ''|'' \<in> set (normalize_text phrase)"
    using assms by (simp add: bar_in_normalize_text)
  have c: "map m_profile (find_skill_matches phrase data False)
         = filter (\<lambda>p. \<exists>s\<in>set (skills_struct p).
                     normalize_text (skill_name s) = normalize_text phrase) data"
  proof -
    have "map m_profile (find_skill_matches phrase data False)
        = filter (\<lambda>p. \<exists>s\<in>set (skills_struct p). exact_test phrase s) data"
      unfolding find_skill_matches_exact_alt
      by (rule scan_profiles[where mk = skill_match, OF m_profile_skill_match])
    also have "\<dots> = filter (\<lambda>p. \<exists>s\<in>set (skills_struct p).
                     normalize_text (skill_name s) = normalize_text phrase) data"
      by (rule filter_cong) (auto simp: exact_test_def eq_commute)
    finally show ?thesis .
  qed
  have d: "part \<noteq> normalize_text phrase" if "part \<in> set (skill_parts_of phrase)" for part
    using assms that by (rule parts_differ_from_phrase)
  have e: "\<exists>s. m_skill m = Some s \<and> normalize_text (skill_name s) = normalize_text phrase
               \<and> normalize_text (skill_name s) \<notin> set (skill_parts_of phrase)"
    if "m \<in> set (top_matches_of phrase data)" "match_type m = Some EXACT" for m
  proof -
    from top_match_tier[OF that(1)] that(2) have "m \<in> set (tagged EXACT phrase data)"
      by auto
    then have "m \<in> set (tag EXACT (find_skill_matches phrase data False))"
      by (simp add: tagged_def tier_matches_def)
    then obtain s where "m_skill m = Some s" "exact_test phrase s"
      unfolding find_skill_matches_exact_alt using tagged_skill_members by blast
    with d show ?thesis by (auto simp: exact_test_def)
  qed
  have f: "p \<notin> set (map m_profile (find_skill_matches phrase data False))"
    if "\<forall>s\<in>set (skills_struct p). normalize_text (skill_name s) \<in> set (skill_parts_of phrase)" for p
    using that d unfolding c by auto
  from a b c d e f show ?thesis by blast
qed

theorem exact_tier_whole_phrase_witness:
  "CHR ''|'' \<in> set ''big data|nlp''
   \<and> skill_parts_of ''big data|nlp'' = [''big data'', ''nlp'']
   \<and> normalize_text ''big data|nlp'' = ''big data|nlp''
   \<and> map (\<lambda>m. (match_id m, match_type m)) (top_matches_of ''big data|nlp'' [p5, p6])
       = [(''P6'', Some EXACT), (''P5'', Some OR)]
   \<and> p5 \<notin> set (map m_profile (find_skill_matches ''big data|nlp'' [p5, p6] False))"
proof -
  have h: "CHR ''|'' \<in> set ''big data|nlp''" by simp
  have a: "skill_parts_of ''big data|nlp'' = [''big data'', ''nlp'']" by code_simp
  have b: "normalize_text ''big data|nlp'' = ''big data|nlp''" by code_simp
  have v: "map (\<lambda>m. (match_id m, match_type m)) (top_matches_of ''big data|nlp'' [p5, p6])
       = [(''P6'', Some EXACT), (''P5'', Some OR)]" by code_simp
  have s: "\<forall>s\<in>set (skills_struct p5). normalize_text (skill_name s) \<in> set (skill_parts_of ''big data|nlp'')"
    by code_simp
  from h a b v s exact_tier_whole_phrase [OF h, of "[p5, p6]"] show ?thesis by blast
qed

end
